theory Spec2Isabelle
  imports Complex_Main "HOL-Library.Word" "HOL-Library.Sublist"
begin

unbundle bit_operations_syntax

section \<open>Python values\<close>

text \<open>
  A Python \<open>str\<close> is a sequence of Unicode code points, so \<open>len\<close> counts code points:
  it is modelled as a list of naturals. \<open>str_lit\<close> turns a literal of the source into
  its code points. A \<open>bytes\<close> value is a list of 8-bit words.
\<close>

type_synonym pystr = "nat list"
type_synonym pybytes = "8 word list"

definition str_lit :: "string \<Rightarrow> pystr" where
  "str_lit s = map of_char s"

text \<open>
  The exceptions the modelled code can raise; none of them is caught in the source.
  \<open>CircuitError\<close> is the one Qiskit raises, for instance for a register of negative
  size.
\<close>

datatype py_error =
  OverflowError | ValueError | ZeroDivisionError | UnicodeEncodeError | CircuitError

text \<open>
  A Python \<open>float\<close> is an IEEE double. Its value is modelled by the exact real number:
  rounding to 53 bits is abstracted away. What is kept is the range of the type, since
  CPython raises \<open>OverflowError\<close> where an integer (or the quotient of two integers)
  does not round to a finite double. With round-half-even that happens exactly from
  \<open>2^1024 - 2^970\<close> on, the midpoint between the largest double and \<open>2^1024\<close>.
  Where the rounding itself decides a question, the speedup factor of the two variants,
  the functions are written out a second time with it, further below.
\<close>

definition float_limit :: real where
  "float_limit = 2 ^ 1024 - 2 ^ 970"

text \<open>\<open>float(n)\<close> for an int \<open>n\<close>, as every mixed int/float operation applies it.\<close>

definition int_to_float :: "int \<Rightarrow> py_error + real" where
  "int_to_float n =
     (if \<bar>real_of_int n\<bar> < float_limit then Inr (real_of_int n) else Inl OverflowError)"

text \<open>\<open>a / b\<close> for two ints: true division, computed from the exact quotient.\<close>

definition int_true_div :: "int \<Rightarrow> int \<Rightarrow> py_error + real" where
  "int_true_div a b =
     (if b = 0 then Inl ZeroDivisionError
      else if \<bar>real_of_int a / real_of_int b\<bar> < float_limit
      then Inr (real_of_int a / real_of_int b)
      else Inl OverflowError)"

text \<open>\<open>math.sqrt(n)\<close> for an int \<open>n\<close>: the argument is converted first.\<close>

definition math_sqrt :: "int \<Rightarrow> py_error + real" where
  "math_sqrt n =
     (case int_to_float n of
        Inl e \<Rightarrow> Inl e
      | Inr x \<Rightarrow> if x < 0 then Inl ValueError else Inr (sqrt x))"

text \<open>
  A Python number is an int or a float; \<open>k ** n\<close> gives the one for \<open>n \<ge> 0\<close> and
  the other for \<open>n < 0\<close>.
\<close>

datatype pynum = PyInt int | PyFloat real

text \<open>Python compares an int and a float by their values.\<close>

fun pynum_value :: "pynum \<Rightarrow> real" where
  "pynum_value (PyInt c) = real_of_int c"
| "pynum_value (PyFloat x) = x"

text \<open>\<open>math.log2(k)\<close> for an int \<open>k\<close>: a domain error unless \<open>k\<close> is positive.\<close>

definition math_log2 :: "int \<Rightarrow> py_error + real" where
  "math_log2 k = (if k \<le> 0 then Inl ValueError else Inr (log 2 (real_of_int k)))"

text \<open>
  What formatting a number with \<open>:.2e\<close> can raise: an int is converted to a float
  first. The text itself is only printed.
\<close>

definition format_2e_check :: "pynum \<Rightarrow> py_error + unit" where
  "format_2e_check v =
     (case v of
        PyInt c \<Rightarrow> (case int_to_float c of Inl e \<Rightarrow> Inl e | Inr x \<Rightarrow> Inr ())
      | PyFloat x \<Rightarrow> Inr ())"

text \<open>
  \<open>round(x, 2)\<close> rounds to two decimals, ties to even (on the exact value, as the
  float model has it).
\<close>

definition round_half_even :: "real \<Rightarrow> int" where
  "round_half_even x =
     (let f = \<lfloor>x\<rfloor>; d = x - of_int f
      in if d < 1 / 2 then f else if 1 / 2 < d then f + 1 else if even f then f else f + 1)"

definition py_round :: "real \<Rightarrow> nat \<Rightarrow> real" where
  "py_round x ndigits = of_int (round_half_even (x * 10 ^ ndigits)) / 10 ^ ndigits"

text \<open>\<open>str(n)\<close> for a non-negative int, as an f-string prints it.\<close>

fun str_of_nat :: "nat \<Rightarrow> pystr" where
  "str_of_nat n =
     (if n < 10 then [48 + n] else str_of_nat (n div 10) @ [48 + n mod 10])"

declare str_of_nat.simps [simp del]

section \<open>Variant A: \<open>QuantumPasswordAnalyzer\<close> (q-password.py)\<close>

subsection \<open>Constants set by \<open>__init__\<close>\<close>

datatype charset_key = Lowercase | Uppercase | Digits | Symbols

fun char_sets :: "charset_key \<Rightarrow> int" where
  "char_sets Lowercase = 26"
| "char_sets Uppercase = 26"
| "char_sets Digits = 10"
| "char_sets Symbols = 8"

definition classical_speed :: int where
  "classical_speed = 10 ^ 8"

definition quantum_speed :: int where
  "quantum_speed = 10 ^ 12"

subsection \<open>Module 1: classical analysis\<close>

text \<open>
  \<open>calculate_charset_size\<close> adds the size of each selected class to \<open>k\<close>, starting
  from 0, and records one line per class. Nothing is added afterwards: there is no floor.
\<close>

definition calculate_charset_size ::
  "bool \<Rightarrow> bool \<Rightarrow> bool \<Rightarrow> bool \<Rightarrow> int \<times> pystr list" where
  "calculate_charset_size use_lowercase use_uppercase use_digits use_symbols =
     (let k = 0; details = [];
          (k, details) =
            (if use_lowercase
             then (k + char_sets Lowercase,
                   details @ [str_lit ''Lowercase: +'' @ str_of_nat (nat (char_sets Lowercase))])
             else (k, details));
          (k, details) =
            (if use_uppercase
             then (k + char_sets Uppercase,
                   details @ [str_lit ''Uppercase: +'' @ str_of_nat (nat (char_sets Uppercase))])
             else (k, details));
          (k, details) =
            (if use_digits
             then (k + char_sets Digits,
                   details @ [str_lit ''Digits: +'' @ str_of_nat (nat (char_sets Digits))])
             else (k, details));
          (k, details) =
            (if use_symbols
             then (k + char_sets Symbols,
                   details @ [str_lit ''Symbols: +'' @ str_of_nat (nat (char_sets Symbols))])
             else (k, details))
      in (k, details))"

text \<open>
  \<open>k ** n\<close> on Python's unbounded ints: the exact power for \<open>n \<ge> 0\<close>. For a
  negative exponent Python converts both numbers to floats and returns a float; zero to
  a negative power is an error.
\<close>

definition calculate_classical_combinations :: "int \<Rightarrow> int \<Rightarrow> py_error + pynum" where
  "calculate_classical_combinations k n =
     (if 0 \<le> n then Inr (PyInt (k ^ nat n))
      else (case int_to_float k of
              Inl e \<Rightarrow> Inl e
            | Inr kf \<Rightarrow>
                (case int_to_float n of
                   Inl e \<Rightarrow> Inl e
                 | Inr nf \<Rightarrow>
                     if kf = 0 then Inl ZeroDivisionError else Inr (PyFloat (kf powi n)))))"

definition calculate_entropy :: "int \<Rightarrow> int \<Rightarrow> py_error + real" where
  "calculate_entropy k n =
     (if k \<le> 0 then Inr 0
      else case int_to_float n of
             Inl e \<Rightarrow> Inl e
           | Inr nf \<Rightarrow> Inr (nf * log 2 (real_of_int k)))"

text \<open>
  The local \<open>time_seconds\<close> of \<open>calculate_classical_crack_time\<close>: the quotient of
  two ints, or of a float and an int. The function itself returns only the formatted
  text.
\<close>

definition classical_time_seconds :: "pynum \<Rightarrow> py_error + real" where
  "classical_time_seconds combinations =
     (case combinations of
        PyInt c \<Rightarrow> int_true_div c classical_speed
      | PyFloat x \<Rightarrow> Inr (x / real_of_int classical_speed))"

text \<open>
  \<open>format_time\<close> chooses a unit by fixed thresholds and appends its name to the
  formatted number. The two float formats of the f-strings, \<open>:.2e\<close> and \<open>:.2f\<close>,
  belong to the Python runtime and are parameters of the model.
\<close>

definition format_time :: "(real \<Rightarrow> pystr) \<Rightarrow> (real \<Rightarrow> pystr) \<Rightarrow> real \<Rightarrow> pystr" where
  "format_time fmt_2e fmt_2f seconds =
     (if seconds < 60 then fmt_2e seconds @ str_lit '' seconds''
      else if seconds < 3600 then fmt_2f (seconds / 60) @ str_lit '' minutes''
      else if seconds < 86400 then fmt_2f (seconds / 3600) @ str_lit '' hours''
      else if seconds < 31536000 then fmt_2f (seconds / 86400) @ str_lit '' days''
      else fmt_2e (seconds / 31536000) @ str_lit '' years'')"

definition calculate_classical_crack_time ::
  "(real \<Rightarrow> pystr) \<Rightarrow> (real \<Rightarrow> pystr) \<Rightarrow> pynum \<Rightarrow> py_error + pystr" where
  "calculate_classical_crack_time fmt_2e fmt_2f combinations =
     (case classical_time_seconds combinations of
        Inl e \<Rightarrow> Inl e
      | Inr time_seconds \<Rightarrow> Inr (format_time fmt_2e fmt_2f time_seconds))"

text \<open>The label and its emoji (red, yellow, green circle, as code points).\<close>

definition classify_strength :: "real \<Rightarrow> pystr \<times> pystr" where
  "classify_strength entropy =
     (if entropy < 40 then (str_lit ''WEAK'', [0x1F534])
      else if entropy < 60 then (str_lit ''MEDIUM'', [0x1F7E1])
      else if entropy < 80 then (str_lit ''STRONG'', [0x1F7E2])
      else (str_lit ''VERY STRONG'', [0x1F7E2, 0x1F7E2]))"

subsection \<open>Module 2: quantum threat analysis\<close>

text \<open>
  \<open>combinations / quantum_attempts\<close> divides an int by a float, so the int is
  converted first.
\<close>

definition apply_grovers_speedup :: "int \<Rightarrow> py_error + real \<times> real" where
  "apply_grovers_speedup combinations =
     (case math_sqrt combinations of
        Inl e \<Rightarrow> Inl e
      | Inr quantum_attempts \<Rightarrow>
          if quantum_attempts > 0
          then (case int_to_float combinations of
                  Inl e \<Rightarrow> Inl e
                | Inr c \<Rightarrow> Inr (quantum_attempts, c / quantum_attempts))
          else Inr (quantum_attempts, 1))"

text \<open>The local \<open>time_seconds\<close> of \<open>calculate_quantum_crack_time\<close>.\<close>

definition quantum_time_seconds :: "real \<Rightarrow> real" where
  "quantum_time_seconds quantum_attempts = quantum_attempts / real_of_int quantum_speed"

definition calculate_quantum_crack_time ::
  "(real \<Rightarrow> pystr) \<Rightarrow> (real \<Rightarrow> pystr) \<Rightarrow> real \<Rightarrow> pystr" where
  "calculate_quantum_crack_time fmt_2e fmt_2f quantum_attempts =
     format_time fmt_2e fmt_2f (quantum_time_seconds quantum_attempts)"

text \<open>Python's \<open>x in s\<close> on strings is the substring test.\<close>

definition assess_quantum_vulnerability :: "pystr \<Rightarrow> pystr \<Rightarrow> pystr" where
  "assess_quantum_vulnerability classical_time_str quantum_time_str =
     (if sublist (str_lit ''second'') quantum_time_str \<or>
         sublist (str_lit ''minute'') quantum_time_str
      then str_lit ''CRITICAL''
      else if sublist (str_lit ''hour'') quantum_time_str \<or>
              sublist (str_lit ''day'') quantum_time_str
      then str_lit ''HIGH''
      else if sublist (str_lit ''year'') quantum_time_str then str_lit ''MODERATE''
      else str_lit ''LOW'')"


text \<open>
  The same function on a float, which is what the combinations are for a negative
  length.
\<close>

definition apply_grovers_speedup_float :: "real \<Rightarrow> py_error + real \<times> real" where
  "apply_grovers_speedup_float combinations =
     (if combinations < 0 then Inl ValueError
      else let quantum_attempts = sqrt combinations
           in if quantum_attempts > 0
              then Inr (quantum_attempts, combinations / quantum_attempts)
              else Inr (quantum_attempts, 1))"

text \<open>\<open>apply_grovers_speedup\<close> on whichever number the combinations are.\<close>

definition apply_grovers_speedup_num :: "pynum \<Rightarrow> py_error + real \<times> real" where
  "apply_grovers_speedup_num combinations =
     (case combinations of
        PyInt c \<Rightarrow> apply_grovers_speedup c
      | PyFloat x \<Rightarrow> apply_grovers_speedup_float x)"

subsection \<open>Module 3: quantum encryption\<close>

text \<open>What one run of \<open>analyze_password\<close> takes from outside the source.\<close>

record runtime =
  float_2e :: "real \<Rightarrow> pystr"
  float_2f :: "real \<Rightarrow> pystr"
  backend :: "int \<Rightarrow> py_error + pystr"
  str_hash :: "pystr \<Rightarrow> int"

text \<open>
  \<open>create_quantum_key\<close> asks Qiskit for registers of \<open>min(length, 8)\<close> qubits, builds
  the circuit and runs it once; the key is the measured bit string. Registers, circuit
  and simulator are outside the source: \<open>backend\<close> stands for them, from the number of
  qubits to the measured key or the library's error. The circuit object, which is only
  printed, is left out.
\<close>

definition create_quantum_key :: "runtime \<Rightarrow> int \<Rightarrow> py_error + pystr" where
  "create_quantum_key rt len = (let num_qubits = min len 8 in backend rt num_qubits)"

text \<open>A non-negative int printed with \<open>:04d\<close>: padded with zeros to four digits.\<close>

definition format_04d :: "int \<Rightarrow> pystr" where
  "format_04d v =
     (let ds = str_of_nat (nat v) in replicate (4 - length ds) 48 @ ds)"

definition quantum_encrypt_password :: "runtime \<Rightarrow> int \<Rightarrow> py_error + pystr \<times> pystr" where
  "quantum_encrypt_password rt password_length =
     (case create_quantum_key rt password_length of
        Inl e \<Rightarrow> Inl e
      | Inr quantum_key \<Rightarrow>
          Inr (str_lit ''QKD-'' @ quantum_key @ str_lit ''-'' @
                 format_04d (str_hash rt quantum_key mod 10000),
               quantum_key))"

subsection \<open>Main analysis\<close>

text \<open>The returned dictionary; every field is the key of the source with \<open>rep_\<close> in front.\<close>

record report_a =
  rep_length :: int
  rep_charset_size :: int
  rep_classical_combinations :: pynum
  rep_entropy :: real
  rep_classical_time :: pystr
  rep_quantum_attempts :: real
  rep_quantum_time :: pystr
  rep_classical_strength :: pystr
  rep_quantum_vulnerability :: pystr
  rep_quantum_hash :: pystr
  rep_quantum_key :: pystr

text \<open>
  \<open>analyze_password\<close> in the order of the source. Of its many \<open>print\<close> calls only two
  can raise and are kept: the combinations formatted with \<open>:.2e\<close>, and
  \<open>math.log2(k)\<close> in the line that explains the entropy. The length is used as it
  comes: nothing compares it with zero or with a bound.
\<close>

definition analyze_password ::
  "runtime \<Rightarrow> int \<Rightarrow> bool \<Rightarrow> bool \<Rightarrow> bool \<Rightarrow> bool \<Rightarrow> bool \<Rightarrow> py_error + report_a" where
  "analyze_password rt len use_lowercase use_uppercase use_digits use_symbols
       show_quantum_circuit =
     (let (k, details) =
            calculate_charset_size use_lowercase use_uppercase use_digits use_symbols
      in (case calculate_classical_combinations k len of
            Inl e \<Rightarrow> Inl e
          | Inr combinations \<Rightarrow>
      (case format_2e_check combinations of
            Inl e \<Rightarrow> Inl e
          | Inr printed \<Rightarrow>
      (case calculate_entropy k len of
            Inl e \<Rightarrow> Inl e
          | Inr entropy \<Rightarrow>
      (case math_log2 k of
            Inl e \<Rightarrow> Inl e
          | Inr printed \<Rightarrow>
      (case calculate_classical_crack_time (float_2e rt) (float_2f rt) combinations of
            Inl e \<Rightarrow> Inl e
          | Inr classical_time \<Rightarrow>
      (let (strength, emoji) = classify_strength entropy
       in (case apply_grovers_speedup_num combinations of
            Inl e \<Rightarrow> Inl e
          | Inr (quantum_attempts, speedup) \<Rightarrow>
      (let quantum_time =
             calculate_quantum_crack_time (float_2e rt) (float_2f rt) quantum_attempts;
           vulnerability = assess_quantum_vulnerability classical_time quantum_time
       in (case quantum_encrypt_password rt len of
            Inl e \<Rightarrow> Inl e
          | Inr (quantum_hash, quantum_key) \<Rightarrow>
              Inr \<lparr> rep_length = len,
                     rep_charset_size = k,
                     rep_classical_combinations = combinations,
                     rep_entropy = entropy,
                     rep_classical_time = classical_time,
                     rep_quantum_attempts = quantum_attempts,
                     rep_quantum_time = quantum_time,
                     rep_classical_strength = strength,
                     rep_quantum_vulnerability = vulnerability,
                     rep_quantum_hash = quantum_hash,
                     rep_quantum_key = quantum_key \<rparr>))))))))))"

section \<open>Variant B: \<open>QuantumAuthTool\<close> (q-passwordv3.py)\<close>

definition GUESSES_PER_SEC :: int where
  "GUESSES_PER_SEC = 10 ^ 8"

subsection \<open>The constants of Python's \<open>string\<close> module\<close>

definition ascii_lowercase :: pystr where
  "ascii_lowercase = str_lit ''abcdefghijklmnopqrstuvwxyz''"

definition ascii_uppercase :: pystr where
  "ascii_uppercase = str_lit ''ABCDEFGHIJKLMNOPQRSTUVWXYZ''"

definition string_digits :: pystr where
  "string_digits = str_lit ''0123456789''"

text \<open>The 32 ASCII punctuation characters, in code point order as Python lists them.\<close>

definition punctuation :: pystr where
  "punctuation = [33 ..< 48] @ [58 ..< 65] @ [91 ..< 97] @ [123 ..< 127]"

text \<open>Space, tab, line feed, carriage return, vertical tab, form feed.\<close>

definition string_whitespace :: pystr where
  "string_whitespace = [32, 9, 10, 13, 11, 12]"

subsection \<open>Module 1: classical analysis\<close>

record charsets =
  lowercase :: bool
  uppercase :: bool
  digits :: bool
  symbols :: bool
  whitespace :: bool

definition detect_charsets :: "pystr \<Rightarrow> charsets \<times> int" where
  "detect_charsets password =
     (let sets = \<lparr> lowercase = list_ex (\<lambda>c. c \<in> set ascii_lowercase) password,
                    uppercase = list_ex (\<lambda>c. c \<in> set ascii_uppercase) password,
                    digits = list_ex (\<lambda>c. c \<in> set string_digits) password,
                    symbols = list_ex (\<lambda>c. c \<in> set punctuation) password,
                    whitespace = list_ex (\<lambda>c. c \<in> set string_whitespace) password \<rparr>;
          alphabet_size = (if lowercase sets then 26 else 0) +
                          (if uppercase sets then 26 else 0) +
                          (if digits sets then 10 else 0) +
                          (if symbols sets then 32 else 0) +
                          (if whitespace sets then 1 else 0)
      in (sets, max alphabet_size 1))"

definition classify_security :: "real \<Rightarrow> pystr" where
  "classify_security entropy =
     (if entropy < 40 then str_lit ''Very Weak''
      else if entropy < 60 then str_lit ''Weak''
      else if entropy < 80 then str_lit ''Moderate''
      else if entropy < 128 then str_lit ''Strong''
      else str_lit ''Very Strong'')"

subsection \<open>Module 2: Grover simulation\<close>

text \<open>Both crack times of this variant are divided by the one rate \<open>GUESSES_PER_SEC\<close>.\<close>

definition simulate_quantum_threat :: "int \<Rightarrow> py_error + real \<times> real" where
  "simulate_quantum_threat N =
     (case math_sqrt N of
        Inl e \<Rightarrow> Inl e
      | Inr quantum_attempts \<Rightarrow>
          let q_time = quantum_attempts / real_of_int GUESSES_PER_SEC
          in (case (if N > 0 then math_sqrt N else Inr 1) of
                Inl e \<Rightarrow> Inl e
              | Inr speedup \<Rightarrow> Inr (q_time, speedup)))"

subsection \<open>The speedup of both variants on doubles\<close>

text \<open>
  The definitions above read a float as the real number it stands for. Whether a
  quotient and a square root are the same float depends on the rounding, so for the
  speedup both variants are written out once more with it. An operation on doubles
  returns the exact result rounded to the nearest double, ties to the even
  significand. A double has a significand of 53 bits, so in the binade
  \<open>[2^e, 2^(e+1))\<close> the doubles are the multiples of \<open>2^(e-52)\<close>; below \<open>2^-1022\<close>
  the spacing stays \<open>2^-1074\<close>. Overflow is checked where Python checks it, on the
  conversion of the int.
\<close>

definition round_double :: "real \<Rightarrow> real" where
  "round_double x =
     (if x = 0 then 0
      else let ulp = 2 powi (max \<lfloor>log 2 \<bar>x\<bar>\<rfloor> (- 1022) - 52)
           in real_of_int (round_half_even (x / ulp)) * ulp)"

definition int_to_double :: "int \<Rightarrow> py_error + real" where
  "int_to_double n =
     (if \<bar>real_of_int n\<bar> < float_limit then Inr (round_double (real_of_int n))
      else Inl OverflowError)"

definition math_sqrt_double :: "int \<Rightarrow> py_error + real" where
  "math_sqrt_double n =
     (case int_to_double n of
        Inl e \<Rightarrow> Inl e
      | Inr x \<Rightarrow> if x < 0 then Inl ValueError else Inr (round_double (sqrt x)))"

text \<open>Variant A: the speedup is the quotient of the combinations by their square root.\<close>

definition apply_grovers_speedup_double :: "int \<Rightarrow> py_error + real \<times> real" where
  "apply_grovers_speedup_double combinations =
     (case math_sqrt_double combinations of
        Inl e \<Rightarrow> Inl e
      | Inr quantum_attempts \<Rightarrow>
          if quantum_attempts > 0
          then (case int_to_double combinations of
                  Inl e \<Rightarrow> Inl e
                | Inr c \<Rightarrow> Inr (quantum_attempts, round_double (c / quantum_attempts)))
          else Inr (quantum_attempts, 1))"

text \<open>Variant B: the speedup is the square root itself, computed a second time.\<close>

definition simulate_quantum_threat_double :: "int \<Rightarrow> py_error + real \<times> real" where
  "simulate_quantum_threat_double N =
     (case math_sqrt_double N of
        Inl e \<Rightarrow> Inl e
      | Inr quantum_attempts \<Rightarrow>
          let q_time = round_double (quantum_attempts / real_of_int GUESSES_PER_SEC)
          in (case (if N > 0 then math_sqrt_double N else Inr 1) of
                Inl e \<Rightarrow> Inl e
              | Inr speedup \<Rightarrow> Inr (q_time, speedup)))"

subsection \<open>Module 3: the simulated key distribution\<close>

text \<open>\<open>str.encode()\<close>: UTF-8. A surrogate code point cannot be encoded.\<close>

definition utf8_encode_char :: "nat \<Rightarrow> py_error + pybytes" where
  "utf8_encode_char c =
     (if c < 0x80 then Inr [of_nat c]
      else if c < 0x800 then Inr [of_nat (0xC0 + c div 64), of_nat (0x80 + c mod 64)]
      else if 0xD800 \<le> c \<and> c < 0xE000 then Inl UnicodeEncodeError
      else if c < 0x10000
      then Inr [of_nat (0xE0 + c div 4096), of_nat (0x80 + c div 64 mod 64),
                of_nat (0x80 + c mod 64)]
      else Inr [of_nat (0xF0 + c div 262144), of_nat (0x80 + c div 4096 mod 64),
                of_nat (0x80 + c div 64 mod 64), of_nat (0x80 + c mod 64)])"

fun str_encode :: "pystr \<Rightarrow> py_error + pybytes" where
  "str_encode [] = Inr []"
| "str_encode (c # cs) =
     (case utf8_encode_char c of
        Inl e \<Rightarrow> Inl e
      | Inr bs \<Rightarrow> (case str_encode cs of Inl e \<Rightarrow> Inl e | Inr rest \<Rightarrow> Inr (bs @ rest)))"

text \<open>\<open>bytes.decode()\<close> on ASCII bytes, which is all that base64 produces.\<close>

definition ascii_decode :: "pybytes \<Rightarrow> pystr" where
  "ascii_decode bs = map unat bs"

definition b64_alphabet :: pystr where
  "b64_alphabet =
     str_lit ''ABCDEFGHIJKLMNOPQRSTUVWXYZabcdefghijklmnopqrstuvwxyz0123456789+/''"

definition b64_char :: "nat \<Rightarrow> 8 word" where
  "b64_char i = of_nat (b64_alphabet ! i)"

text \<open>
  \<open>base64.b64encode\<close>: three bytes make a 24-bit group, printed as four sextets; a
  last group of one or two bytes is padded with \<open>=\<close> (code 61).
\<close>

fun b64encode :: "pybytes \<Rightarrow> pybytes" where
  "b64encode [] = []"
| "b64encode [a] =
     (let n = unat a * 65536
      in [b64_char (n div 262144), b64_char (n div 4096 mod 64), 61, 61])"
| "b64encode [a, b] =
     (let n = unat a * 65536 + unat b * 256
      in [b64_char (n div 262144), b64_char (n div 4096 mod 64),
          b64_char (n div 64 mod 64), 61])"
| "b64encode (a # b # c # rest) =
     (let n = unat a * 65536 + unat b * 256 + unat c
      in [b64_char (n div 262144), b64_char (n div 4096 mod 64),
          b64_char (n div 64 mod 64), b64_char (n mod 64)] @ b64encode rest)"

text \<open>\<open>hex(n)\<close> for a non-negative int: \<open>0x\<close> and the lower-case digits, no leading zero.\<close>

definition hex_digit :: "nat \<Rightarrow> nat" where
  "hex_digit d = str_lit ''0123456789abcdef'' ! d"

fun hex_digits :: "nat \<Rightarrow> pystr" where
  "hex_digits n =
     (if n < 16 then [hex_digit n] else hex_digits (n div 16) @ [hex_digit (n mod 16)])"

declare hex_digits.simps [simp del]

definition py_hex :: "nat \<Rightarrow> pystr" where
  "py_hex n = str_lit ''0x'' @ hex_digits n"

text \<open>
  The circuit of eight qubits is run once on the simulator, which returns the measured
  bits as text; \<open>int(key_bits, 2)\<close> reads them as a binary numeral. The simulator is
  outside the source: its outcome is an argument of the model, one \<open>bool\<close> per
  measured bit, most significant first.
\<close>

definition int_base2 :: "bool list \<Rightarrow> nat" where
  "int_base2 bits = foldl (\<lambda>acc b. 2 * acc + (if b then 1 else 0)) 0 bits"

record qkd_result =
  ciphertext :: pystr
  qkd_key_fingerprint :: pystr

definition simulate_qkd_and_encrypt :: "bool list \<Rightarrow> pystr \<Rightarrow> py_error + qkd_result" where
  "simulate_qkd_and_encrypt key_bits suggestion =
     (let key_int = int_base2 key_bits
      in case str_encode suggestion of
           Inl e \<Rightarrow> Inl e
         | Inr plain \<Rightarrow>
             let encrypted_bytes = map (\<lambda>b. b XOR of_nat (key_int mod 256)) plain
             in Inr \<lparr> ciphertext = ascii_decode (b64encode encrypted_bytes),
                      qkd_key_fingerprint = py_hex key_int \<rparr>)"

subsection \<open>Suggestion engine\<close>

text \<open>
  \<open>str.isdigit\<close> consults the Unicode database of the runtime: it is a parameter.
\<close>

definition get_improvements :: "(nat \<Rightarrow> bool) \<Rightarrow> pystr \<Rightarrow> real \<Rightarrow> pystr list" where
  "get_improvements isdigit password entropy =
     (let recs = [];
          recs = (if length password < 12
                  then recs @ [str_lit ''Increase length to at least 12 characters.'']
                  else recs);
          recs = (if \<not> list_ex isdigit password
                  then recs @ [str_lit ''Include numbers (0-9).'']
                  else recs);
          recs = (if \<not> list_ex (\<lambda>c. c \<in> set punctuation) password
                  then recs @ [str_lit ''Add special symbols (e.g., @, #, $).'']
                  else recs);
          recs = (if entropy < 60
                  then recs @ [str_lit ''Current entropy is low; use a passphrase of 4+ random words.'']
                  else recs)
      in recs)"

text \<open>
  \<open>secrets.choice(alphabet)\<close> picks the element at a random index below the length
  of the alphabet. The random source is a parameter: \<open>draw i\<close> is the number drawn
  for the \<open>i\<close>-th character, reduced into range.
\<close>

definition generate_random_password :: "(nat \<Rightarrow> nat) \<Rightarrow> nat \<Rightarrow> pystr" where
  "generate_random_password draw len =
     (let alphabet = ascii_lowercase @ ascii_uppercase @ string_digits @ punctuation
      in map (\<lambda>i. alphabet ! (draw i mod length alphabet)) [0 ..< len])"

subsection \<open>Main analysis\<close>

text \<open>What one run of \<open>analyze\<close> takes from outside the source.\<close>

record env =
  isdigit :: "nat \<Rightarrow> bool"
  draw :: "nat \<Rightarrow> nat"
  measured_bits :: "bool list"

text \<open>
  The report dictionary, with its nested dictionaries flattened: \<open>charsets_field\<close> and
  \<open>alphabet_size\<close> are the entry \<open>charsets\<close>, the next three fields the entry
  \<open>classical\<close>, the two after them the entry \<open>quantum\<close>, and the last three the
  list \<open>password_suggestions\<close>.
\<close>

record report =
  input_password :: pystr
  length_field :: int
  charsets_field :: charsets
  alphabet_size :: int
  combinations :: int
  entropy_bits :: real
  crack_time_seconds :: real
  quantum_crack_time_seconds :: real
  speedup_factor :: real
  security_classification :: pystr
  suggestions :: "pystr list"
  passphrase :: pystr
  random_suggestion :: pystr
  quantum_encrypted :: qkd_result

definition analyze :: "env \<Rightarrow> pystr \<Rightarrow> py_error + report" where
  "analyze w password =
     (let (charsets, A) = detect_charsets password;
          L = int (length password);
          N = A ^ nat L
      in (case int_to_float L of
            Inl e \<Rightarrow> Inl e
          | Inr Lf \<Rightarrow>
              (let entropy = Lf * log 2 (real_of_int A)
               in (case int_true_div N GUESSES_PER_SEC of
                     Inl e \<Rightarrow> Inl e
                   | Inr c_time \<Rightarrow>
                       (case simulate_quantum_threat N of
                          Inl e \<Rightarrow> Inl e
                        | Inr (q_time, speedup) \<Rightarrow>
                            (let rating = classify_security entropy;
                                 recs = get_improvements (isdigit w) password entropy;
                                 new_random = generate_random_password (draw w) 16
                             in (case simulate_qkd_and_encrypt (measured_bits w) new_random of
                                   Inl e \<Rightarrow> Inl e
                                 | Inr q_encryption \<Rightarrow>
                                     Inr \<lparr> input_password = password,
                                            length_field = L,
                                            charsets_field = charsets,
                                            alphabet_size = A,
                                            combinations = N,
                                            entropy_bits = py_round entropy 2,
                                            crack_time_seconds = c_time,
                                            quantum_crack_time_seconds = q_time,
                                            speedup_factor = speedup,
                                            security_classification = rating,
                                            suggestions = recs,
                                            passphrase = str_lit ''Correct-Horse-Battery-Staple'',
                                            random_suggestion = new_random,
                                            quantum_encrypted = q_encryption \<rparr>)))))))"

section \<open>The order of the tiers\<close>

text \<open>
  The position of a label in its variant's list of tiers, weakest first. The source has
  no such function: it is what "monotonic in entropy" is measured against.
\<close>

definition strength_rank :: "pystr \<Rightarrow> nat" where
  "strength_rank t =
     (if t = str_lit ''WEAK'' then 0 else if t = str_lit ''MEDIUM'' then 1
      else if t = str_lit ''STRONG'' then 2 else 3)"

definition security_rank :: "pystr \<Rightarrow> nat" where
  "security_rank t =
     (if t = str_lit ''Very Weak'' then 0 else if t = str_lit ''Weak'' then 1
      else if t = str_lit ''Moderate'' then 2 else if t = str_lit ''Strong'' then 3 else 4)"

section \<open>Decryption, as the specification describes it\<close>

text \<open>
  The source only encrypts. The inverse direction is written down here from its
  description: decode the base64 text, read the key back from the hexadecimal
  fingerprint, and XOR every byte with the key modulo 256. The decoder is strict: it
  accepts exactly the padded base64 texts.
\<close>

fun index_of :: "'a \<Rightarrow> 'a list \<Rightarrow> nat option" where
  "index_of x [] = None"
| "index_of x (y # ys) = (if x = y then Some 0 else map_option Suc (index_of x ys))"

definition b64_index :: "8 word \<Rightarrow> nat option" where
  "b64_index c = index_of (unat c) b64_alphabet"

fun b64decode :: "pybytes \<Rightarrow> pybytes option" where
  "b64decode [] = Some []"
| "b64decode (c0 # c1 # c2 # c3 # rest) =
     (case (b64_index c0, b64_index c1) of
        (Some i0, Some i1) \<Rightarrow>
          if rest = [] \<and> c2 = 61 \<and> c3 = 61
          then Some [of_nat ((i0 * 64 + i1) div 16)]
          else (case b64_index c2 of
                  None \<Rightarrow> None
                | Some i2 \<Rightarrow>
                    if rest = [] \<and> c3 = 61
                    then (let m = (i0 * 64 + i1) * 64 + i2
                          in Some [of_nat (m div 1024), of_nat (m div 4)])
                    else (case b64_index c3 of
                            None \<Rightarrow> None
                          | Some i3 \<Rightarrow>
                              (let m = ((i0 * 64 + i1) * 64 + i2) * 64 + i3
                               in map_option
                                    (\<lambda>bs. of_nat (m div 65536) # of_nat (m div 256) # of_nat m # bs)
                                    (b64decode rest))))
      | _ \<Rightarrow> None)"
| "b64decode _ = None"

definition hex_value :: "nat \<Rightarrow> nat option" where
  "hex_value c = index_of c (str_lit ''0123456789abcdef'')"

fun parse_hex_digits :: "nat \<Rightarrow> pystr \<Rightarrow> nat option" where
  "parse_hex_digits acc [] = Some acc"
| "parse_hex_digits acc (c # cs) =
     (case hex_value c of None \<Rightarrow> None | Some d \<Rightarrow> parse_hex_digits (16 * acc + d) cs)"

definition int_of_hex :: "pystr \<Rightarrow> nat option" where
  "int_of_hex s =
     (if take 2 s = str_lit ''0x'' \<and> drop 2 s \<noteq> [] then parse_hex_digits 0 (drop 2 s) else None)"

definition decrypt_suggestion :: "qkd_result \<Rightarrow> pybytes option" where
  "decrypt_suggestion r =
     (case int_of_hex (qkd_key_fingerprint r) of
        None \<Rightarrow> None
      | Some key_int \<Rightarrow>
          (case b64decode (map of_nat (ciphertext r)) of
             None \<Rightarrow> None
           | Some bs \<Rightarrow> Some (map (\<lambda>b. b XOR of_nat (key_int mod 256)) bs)))"

section \<open>A sample environment\<close>

text \<open>ASCII digits only, an arithmetic sequence of draws, and the measured key \<open>10100110\<close>.\<close>

definition demo_env :: env where
  "demo_env = \<lparr> isdigit = (\<lambda>c. c \<in> set string_digits), draw = (\<lambda>i. 7 * i + 3),
                measured_bits = [True, False, True, False, False, True, True, False] \<rparr>"

text \<open>
  A runtime for variant A: floats are printed as the empty text, every string hashes to
  0, and the backend refuses a negative number of qubits, as Qiskit does, and otherwise
  measures all ones.
\<close>

definition demo_runtime :: runtime where
  "demo_runtime = \<lparr> float_2e = (\<lambda>x. []), float_2f = (\<lambda>x. []),
       backend = (\<lambda>n. if n < 0 then Inl CircuitError else Inr (replicate (nat n) 49)),
       str_hash = (\<lambda>s. 0) \<rparr>"

section \<open>The alphabet size\<close>

lemma detect_charsets_ge_1: "1 \<le> snd (detect_charsets password)"
  by (simp add: detect_charsets_def Let_def)

lemma calculate_charset_size_fst:
  "fst (calculate_charset_size l u d s) =
     (if l then 26 else 0) + (if u then 26 else 0) + (if d then 10 else 0) + (if s then 8 else 0)"
  by (simp add: calculate_charset_size_def Let_def)

lemma detect_charsets_flags:
  "lowercase (fst (detect_charsets password)) = list_ex (\<lambda>c. c \<in> set ascii_lowercase) password"
  "uppercase (fst (detect_charsets password)) = list_ex (\<lambda>c. c \<in> set ascii_uppercase) password"
  "digits (fst (detect_charsets password)) = list_ex (\<lambda>c. c \<in> set string_digits) password"
  "symbols (fst (detect_charsets password)) = list_ex (\<lambda>c. c \<in> set punctuation) password"
  "whitespace (fst (detect_charsets password)) = list_ex (\<lambda>c. c \<in> set string_whitespace) password"
  by (simp_all add: detect_charsets_def Let_def)

lemma detect_charsets_snd:
  "snd (detect_charsets password) =
     max ((if lowercase (fst (detect_charsets password)) then 26 else 0) +
          (if uppercase (fst (detect_charsets password)) then 26 else 0) +
          (if digits (fst (detect_charsets password)) then 10 else 0) +
          (if symbols (fst (detect_charsets password)) then 32 else 0) +
          (if whitespace (fst (detect_charsets password)) then 1 else 0)) 1"
  by (simp add: detect_charsets_def Let_def)

text \<open>
  C2, as the code has it. Variant A has no floor: \<open>calculate_charset_size\<close> returns
  the plain sum of the sizes of the selected classes (26, 26, 10 and 8), which is at
  least 1 exactly when some flag is set and is 0 when all four flags are false.
  Variant B floors the sum: a class is present when some character of the password
  belongs to it, and \<open>detect_charsets\<close> returns the maximum of 1 and the sum of the
  sizes of the present classes (26, 26, 10, 32 and 1), so at least 1 for every
  password and exactly 1 for the empty one.
\<close>

theorem alphabet_size_floor:
  "fst (calculate_charset_size l u d s) =
     (if l then 26 else 0) + (if u then 26 else 0) + (if d then 10 else 0) + (if s then 8 else 0)
   \<and> (1 \<le> fst (calculate_charset_size l u d s)) = (l \<or> u \<or> d \<or> s)
   \<and> fst (calculate_charset_size False False False False) = 0
   \<and> lowercase (fst (detect_charsets password)) =
       list_ex (\<lambda>c. c \<in> set ascii_lowercase) password
   \<and> uppercase (fst (detect_charsets password)) =
       list_ex (\<lambda>c. c \<in> set ascii_uppercase) password
   \<and> digits (fst (detect_charsets password)) = list_ex (\<lambda>c. c \<in> set string_digits) password
   \<and> symbols (fst (detect_charsets password)) = list_ex (\<lambda>c. c \<in> set punctuation) password
   \<and> whitespace (fst (detect_charsets password)) =
       list_ex (\<lambda>c. c \<in> set string_whitespace) password
   \<and> snd (detect_charsets password) =
       max ((if lowercase (fst (detect_charsets password)) then 26 else 0) +
            (if uppercase (fst (detect_charsets password)) then 26 else 0) +
            (if digits (fst (detect_charsets password)) then 10 else 0) +
            (if symbols (fst (detect_charsets password)) then 32 else 0) +
            (if whitespace (fst (detect_charsets password)) then 1 else 0)) 1
   \<and> 1 \<le> snd (detect_charsets password)
   \<and> snd (detect_charsets []) = 1"
proof -
  have "(1 \<le> fst (calculate_charset_size l u d s)) = (l \<or> u \<or> d \<or> s)"
    by (simp add: calculate_charset_size_fst)
  moreover have "fst (calculate_charset_size False False False False) = 0"
    by (simp add: calculate_charset_size_fst)
  moreover have "snd (detect_charsets []) = 1"
    by (simp add: detect_charsets_def)
  moreover note calculate_charset_size_fst [of l u d s] detect_charsets_flags [of password]
    detect_charsets_snd [of password] detect_charsets_ge_1 [of password]
  ultimately show ?thesis
    by (intro conjI)
qed

text \<open>
  The instance at the flags lowercase and digits, and at the password \<open>ab1\<close>; both
  zero cases.
\<close>

theorem alphabet_size_floor_witness:
  "fst (calculate_charset_size True False True False) = 36
   \<and> fst (calculate_charset_size False False False False) = 0
   \<and> snd (detect_charsets (str_lit ''ab1'')) = 36
   \<and> snd (detect_charsets []) = 1"
proof -
  have f: "lowercase (fst (detect_charsets (str_lit ''ab1'')))"
    "\<not> uppercase (fst (detect_charsets (str_lit ''ab1'')))"
    "digits (fst (detect_charsets (str_lit ''ab1'')))"
    "\<not> symbols (fst (detect_charsets (str_lit ''ab1'')))"
    "\<not> whitespace (fst (detect_charsets (str_lit ''ab1'')))"
    by (simp_all add: detect_charsets_flags str_lit_def ascii_lowercase_def ascii_uppercase_def
          string_digits_def punctuation_def string_whitespace_def)
  show ?thesis
    using alphabet_size_floor [of True False True False "str_lit ''ab1''"] f by simp
qed

text \<open>
  C2 as stated fails for variant A: with all four flags false the alphabet size is 0,
  not 1.
\<close>

theorem alphabet_size_floor_counterexample:
  "\<not> 1 \<le> fst (calculate_charset_size False False False False)"
  by (simp add: calculate_charset_size_fst)

lemma sublist_suffix_lit: "sublist xs (ps @ ys @ xs @ zs)"
  unfolding sublist_def by (metis append.assoc)

lemma format_time_cases:
  "(\<exists>p. format_time fe ff s = p @ str_lit '' '' @ str_lit ''second'' @ str_lit ''s'') \<or>
   (\<exists>p. format_time fe ff s = p @ str_lit '' '' @ str_lit ''minute'' @ str_lit ''s'') \<or>
   (\<exists>p. format_time fe ff s = p @ str_lit '' '' @ str_lit ''hour'' @ str_lit ''s'') \<or>
   (\<exists>p. format_time fe ff s = p @ str_lit '' '' @ str_lit ''day'' @ str_lit ''s'') \<or>
   (\<exists>p. format_time fe ff s = p @ str_lit '' '' @ str_lit ''year'' @ str_lit ''s'')"
  by (simp add: format_time_def str_lit_def)

lemma format_time_unit:
  "sublist (str_lit ''second'') (format_time fe ff s) \<or>
   sublist (str_lit ''minute'') (format_time fe ff s) \<or>
   sublist (str_lit ''hour'') (format_time fe ff s) \<or>
   sublist (str_lit ''day'') (format_time fe ff s) \<or>
   sublist (str_lit ''year'') (format_time fe ff s)"
  using format_time_cases [of fe ff s] sublist_suffix_lit by metis

text \<open>
  C9. Whatever the number of seconds (non-negative or not) and whatever the float
  formats print, the text of \<open>format_time\<close> ends in one of the five unit names, so it
  contains \<open>second\<close>, \<open>minute\<close>, \<open>hour\<close>, \<open>day\<close> or \<open>year\<close>; on such a text
  \<open>assess_quantum_vulnerability\<close> answers \<open>CRITICAL\<close>, \<open>HIGH\<close> or \<open>MODERATE\<close> and
  never \<open>LOW\<close>.
\<close>

theorem format_time_never_low:
  "(sublist (str_lit ''second'') (format_time fe ff s) \<or>
    sublist (str_lit ''minute'') (format_time fe ff s) \<or>
    sublist (str_lit ''hour'') (format_time fe ff s) \<or>
    sublist (str_lit ''day'') (format_time fe ff s) \<or>
    sublist (str_lit ''year'') (format_time fe ff s))
   \<and> assess_quantum_vulnerability c (format_time fe ff s)
       \<in> {str_lit ''CRITICAL'', str_lit ''HIGH'', str_lit ''MODERATE''}
   \<and> assess_quantum_vulnerability c (format_time fe ff s) \<noteq> str_lit ''LOW''"
  using format_time_unit [of fe ff s]
  by (auto simp: assess_quantum_vulnerability_def) (simp_all add: str_lit_def)

lemma math_sqrt_ok:
  "0 \<le> n \<Longrightarrow> real_of_int n < float_limit \<Longrightarrow> math_sqrt n = Inr (sqrt (real_of_int n))"
  by (simp add: math_sqrt_def int_to_float_def)

lemma math_sqrt_overflow:
  "0 \<le> n \<Longrightarrow> \<not> real_of_int n < float_limit \<Longrightarrow> math_sqrt n = Inl OverflowError"
  by (simp add: math_sqrt_def int_to_float_def)

lemma apply_grovers_speedup_pos:
  assumes "0 < c" "real_of_int c < float_limit"
  shows "apply_grovers_speedup c = Inr (sqrt (real_of_int c), real_of_int c / sqrt (real_of_int c))"
  using assms by (simp add: apply_grovers_speedup_def math_sqrt_ok int_to_float_def)

lemma simulate_quantum_threat_pos:
  assumes "0 < N" "real_of_int N < float_limit"
  shows "simulate_quantum_threat N =
           Inr (sqrt (real_of_int N) / real_of_int GUESSES_PER_SEC, sqrt (real_of_int N))"
  using assms by (simp add: simulate_quantum_threat_def math_sqrt_ok)

lemma apply_grovers_speedup_zero: "apply_grovers_speedup 0 = Inr (0, 1)"
  by (simp add: apply_grovers_speedup_def math_sqrt_def int_to_float_def float_limit_def)

lemma simulate_quantum_threat_zero: "simulate_quantum_threat 0 = Inr (0, 1)"
  by (simp add: simulate_quantum_threat_def math_sqrt_def int_to_float_def float_limit_def)

lemma four_in_range: "real_of_int 4 < float_limit"
  by (simp add: float_limit_def)

section \<open>The speedup factor\<close>

subsection \<open>Rounding\<close>

lemma round_half_even_close: "\<bar>real_of_int (round_half_even x) - x\<bar> \<le> 1 / 2"
proof -
  have "real_of_int \<lfloor>x\<rfloor> \<le> x" "x < real_of_int \<lfloor>x\<rfloor> + 1"
    by linarith+
  then show ?thesis
    by (auto simp: round_half_even_def Let_def)
qed

lemma round_half_even_of_int: "round_half_even (real_of_int k) = k"
  by (simp add: round_half_even_def)

lemma round_half_even_between:
  assumes "real_of_int m - 1 / 2 < x" "x < real_of_int m + 1 / 2"
  shows "round_half_even x = m"
proof -
  have "\<bar>real_of_int (round_half_even x) - x\<bar> \<le> 1 / 2"
    by (rule round_half_even_close)
  then have "\<bar>real_of_int (round_half_even x) - real_of_int m\<bar> < 1"
    using assms by linarith
  then have "\<bar>real_of_int (round_half_even x - m)\<bar> < 1"
    by simp
  then have "\<bar>round_half_even x - m\<bar> < 1"
    by linarith
  then show ?thesis
    by simp
qed

lemma floor_log2_binade:
  assumes "2 powi e \<le> x" "x < 2 powi (e + 1)"
  shows "\<lfloor>log 2 x\<rfloor> = e"
proof -
  have "(0::real) < 2 powi e"
    by (rule zero_less_power_int) simp
  then have pos: "0 < x"
    using assms(1) by linarith
  have pw: "(2::real) powr real_of_int k = 2 powi k" for k
    by (rule powr_real_of_int') simp_all
  show ?thesis
    using assms pos by (simp only: floor_log_eq_powr_iff [of x 2 e] pw)
qed

lemma round_double_binade:
  assumes "2 powi e \<le> \<bar>x\<bar>" "\<bar>x\<bar> < 2 powi (e + 1)" "- 1022 \<le> e"
  shows "round_double x =
           real_of_int (round_half_even (x / 2 powi (e - 52))) * 2 powi (e - 52)"
proof -
  have "(0::real) < 2 powi e"
    by (rule zero_less_power_int) simp
  then have "0 < \<bar>x\<bar>"
    using assms(1) by linarith
  then have "x \<noteq> 0"
    by simp
  moreover have "\<lfloor>log 2 \<bar>x\<bar>\<rfloor> = e"
    using assms(1,2) by (rule floor_log2_binade)
  moreover have "max e (- 1022) = e"
    using assms(3) by simp
  ultimately show ?thesis
    by (simp only: round_double_def Let_def if_False)
qed

lemma round_double_rel:
  assumes "2 powi (- 1022) \<le> \<bar>x\<bar>"
  shows "\<bar>round_double x - x\<bar> \<le> \<bar>x\<bar> / 2 ^ 53"
proof -
  have p0: "(0::real) < 2 powi (- 1022)"
    by (rule zero_less_power_int) simp
  then have xpos: "0 < \<bar>x\<bar>"
    using assms by linarith
  define e where "e = \<lfloor>log 2 \<bar>x\<bar>\<rfloor>"
  have pw: "(2::real) powr real_of_int k = 2 powi k" for k
    by (rule powr_real_of_int') simp_all
  have "\<lfloor>log 2 \<bar>x\<bar>\<rfloor> = e"
    by (simp add: e_def)
  then have bin: "2 powi e \<le> \<bar>x\<bar>" "\<bar>x\<bar> < 2 powi (e + 1)"
    using xpos by (simp_all only: floor_log_eq_powr_iff [of "\<bar>x\<bar>" 2 e] pw)
  have lt: "(2::real) powi (- 1022) < 2 powi (e + 1)"
    using assms bin(2) by linarith
  have "\<not> e + 1 \<le> - 1022"
  proof
    assume "e + 1 \<le> - 1022"
    then have "(2::real) powi (e + 1) \<le> 2 powi (- 1022)"
      by (intro power_int_increasing) simp_all
    with lt show False
      by linarith
  qed
  then have e_lo: "- 1022 \<le> e"
    by simp
  define ulp :: real where "ulp = 2 powi (e - 52)"
  have upos: "0 < ulp"
    unfolding ulp_def by (rule zero_less_power_int) simp
  have rd: "round_double x = real_of_int (round_half_even (x / ulp)) * ulp"
    unfolding ulp_def using bin e_lo by (rule round_double_binade)
  have "\<bar>real_of_int (round_half_even (x / ulp)) - x / ulp\<bar> \<le> 1 / 2"
    by (rule round_half_even_close)
  then have "\<bar>real_of_int (round_half_even (x / ulp)) - x / ulp\<bar> * ulp \<le> 1 / 2 * ulp"
    using upos by (intro mult_right_mono) simp_all
  moreover have "\<bar>real_of_int (round_half_even (x / ulp)) - x / ulp\<bar> * ulp =
      \<bar>real_of_int (round_half_even (x / ulp)) * ulp - x\<bar>"
  proof -
    have "\<bar>real_of_int (round_half_even (x / ulp)) - x / ulp\<bar> * ulp =
        \<bar>(real_of_int (round_half_even (x / ulp)) - x / ulp) * ulp\<bar>"
      using upos by (simp add: abs_mult)
    also have "(real_of_int (round_half_even (x / ulp)) - x / ulp) * ulp =
        real_of_int (round_half_even (x / ulp)) * ulp - x"
      using upos by (simp add: field_simps)
    finally show ?thesis .
  qed
  ultimately have close: "\<bar>round_double x - x\<bar> \<le> ulp / 2"
    by (simp add: rd)
  have "ulp = 2 powi e / 2 ^ 52"
    unfolding ulp_def by (simp add: power_int_diff)
  then have "ulp / 2 = 2 powi e / 2 ^ 53"
    by simp
  also have "\<dots> \<le> \<bar>x\<bar> / 2 ^ 53"
    using bin(1) by (simp add: divide_right_mono)
  finally show ?thesis
    using close by linarith
qed


lemma round_double_multiple:
  assumes "2 powi e \<le> \<bar>real_of_int k * 2 powi (e - 52)\<bar>"
    "\<bar>real_of_int k * 2 powi (e - 52)\<bar> < 2 powi (e + 1)" "- 1022 \<le> e"
  shows "round_double (real_of_int k * 2 powi (e - 52)) = real_of_int k * 2 powi (e - 52)"
proof -
  have "(2::real) powi (e - 52) \<noteq> 0"
    by simp
  then have "real_of_int k * 2 powi (e - 52) / 2 powi (e - 52) = real_of_int k"
    by simp
  then show ?thesis
    using round_double_binade [OF assms] by (simp only: round_half_even_of_int)
qed

subsection \<open>The speedup at 26 combinations\<close>

lemma round_double_26: "round_double 26 = 26"
proof -
  have "round_double (real_of_int (26 * 2 ^ 48) * 2 powi (4 - 52)) =
      real_of_int (26 * 2 ^ 48) * 2 powi (4 - 52)"
    by (rule round_double_multiple) simp_all
  then show ?thesis
    by simp
qed

lemma sqrt_26_binade: "2 powi 2 \<le> \<bar>sqrt 26\<bar>" "\<bar>sqrt 26\<bar> < 2 powi (2 + 1)"
proof -
  have "4 \<le> sqrt 26"
    by (rule real_le_rsqrt) simp
  moreover have "sqrt 26 < 8"
    by (rule real_less_lsqrt) simp_all
  ultimately show "2 powi 2 \<le> \<bar>sqrt 26\<bar>" "\<bar>sqrt 26\<bar> < 2 powi (2 + 1)"
    by simp_all
qed

lemma round_double_sqrt_26: "round_double (sqrt 26) = 5740985595342838 / 2 ^ 50"
proof -
  have lo: "(11481971190685675 / 2 ^ 51 :: real) < sqrt 26"
    by (rule real_less_rsqrt) (simp add: power2_eq_square)
  have hi: "sqrt 26 < (11481971190685677 / 2 ^ 51 :: real)"
    by (rule real_less_lsqrt) (simp_all add: power2_eq_square)
  have q: "sqrt 26 / 2 powi (2 - 52) = sqrt 26 * 2 ^ 50"
    by (simp add: power_int_minus field_simps)
  have "real_of_int 5740985595342838 - 1 / 2 < sqrt 26 * 2 ^ 50"
    using lo by (simp add: field_simps)
  moreover have "sqrt 26 * 2 ^ 50 < real_of_int 5740985595342838 + 1 / 2"
    using hi by (simp add: field_simps)
  ultimately have "round_half_even (sqrt 26 * 2 ^ 50) = 5740985595342838"
    by (rule round_half_even_between)
  then have "round_double (sqrt 26) = real_of_int 5740985595342838 * 2 powi (2 - 52)"
    using round_double_binade [OF sqrt_26_binade] by (simp only: q)
  then show ?thesis
    by (simp add: power_int_minus field_simps)
qed

lemma round_double_quotient_26:
  "round_double (26 / (5740985595342838 / 2 ^ 50)) = 5740985595342839 / 2 ^ 50"
proof -
  define x :: real where "x = 26 / (5740985595342838 / 2 ^ 50)"
  have b: "2 powi 2 \<le> \<bar>x\<bar>" "\<bar>x\<bar> < 2 powi (2 + 1)"
    by (simp_all add: x_def)
  have q: "x / 2 powi (2 - 52) = x * 2 ^ 50"
    by (simp add: power_int_minus field_simps)
  have "real_of_int 5740985595342839 - 1 / 2 < x * 2 ^ 50"
    by (simp add: x_def)
  moreover have "x * 2 ^ 50 < real_of_int 5740985595342839 + 1 / 2"
    by (simp add: x_def)
  ultimately have "round_half_even (x * 2 ^ 50) = 5740985595342839"
    by (rule round_half_even_between)
  then have "round_double x = real_of_int 5740985595342839 * 2 powi (2 - 52)"
    using round_double_binade [OF b] by (simp only: q)
  then show ?thesis
    by (simp add: x_def power_int_minus field_simps)
qed

lemma float_limit_26: "\<bar>real_of_int 26\<bar> < float_limit"
  by (simp add: float_limit_def)

lemma math_sqrt_double_26: "math_sqrt_double 26 = Inr (5740985595342838 / 2 ^ 50)"
  using float_limit_26
  by (simp add: math_sqrt_double_def int_to_double_def round_double_26 round_double_sqrt_26)

lemma apply_grovers_speedup_double_26:
  "apply_grovers_speedup_double 26 =
     Inr (5740985595342838 / 2 ^ 50, 5740985595342839 / 2 ^ 50)"
proof -
  have i: "int_to_double 26 = Inr 26"
    using float_limit_26 by (simp add: int_to_double_def round_double_26)
  have pos: "(5740985595342838 / 2 ^ 50 :: real) > 0"
    by simp
  show ?thesis
    unfolding apply_grovers_speedup_double_def math_sqrt_double_26 i
    by (simp only: sum.case pos if_True round_double_quotient_26)
qed

lemma simulate_quantum_threat_double_26:
  "simulate_quantum_threat_double 26 =
     Inr (round_double (5740985595342838 / 2 ^ 50 / 10 ^ 8), 5740985595342838 / 2 ^ 50)"
  by (simp add: simulate_quantum_threat_double_def math_sqrt_double_26 GUESSES_PER_SEC_def)


subsection \<open>How far the rounded speedup is from the square root\<close>

lemma sqrt_between:
  assumes "0 < s" "0 \<le> a" "a \<le> 1" "1 \<le> b" "s * s * a \<le> x" "x \<le> s * s * b"
  shows "s * a \<le> sqrt x" "sqrt x \<le> s * b"
proof -
  have "(s * a)\<^sup>2 = s * s * a * a"
    by (simp add: power2_eq_square)
  also have "\<dots> \<le> s * s * a * 1"
    using assms(1-3) by (intro mult_left_mono) simp_all
  also have "\<dots> \<le> x"
    using assms(5) by simp
  finally show "s * a \<le> sqrt x"
    by (rule real_le_rsqrt)
  have "0 \<le> x"
    using assms(1,2,5) by (meson mult_nonneg_nonneg less_imp_le order_trans)
  have "x \<le> s * s * b * 1"
    using assms(6) by simp
  also have "\<dots> \<le> s * s * b * b"
    using assms(1,4) by (intro mult_left_mono) simp_all
  also have "\<dots> = (s * b)\<^sup>2"
    by (simp add: power2_eq_square)
  finally show "sqrt x \<le> s * b"
    using assms(1,4) by (intro real_le_lsqrt \<open>0 \<le> x\<close>) simp_all
qed

lemma rel_bounds:
  fixes x y u :: real
  assumes "\<bar>y - x\<bar> \<le> \<bar>x\<bar> * u" "0 < x"
  shows "x * (1 - u) \<le> y" "y \<le> x * (1 + u)"
  using assms by (simp_all add: algebra_simps abs_le_iff)

lemma speedup_error:
  fixes c cf qa sp :: real
  defines "u \<equiv> 1 / 2 ^ 53"
  assumes c: "1 \<le> c"
    and cf: "\<bar>cf - c\<bar> \<le> \<bar>c\<bar> * u"
    and qa: "\<bar>qa - sqrt cf\<bar> \<le> \<bar>sqrt cf\<bar> * u"
    and sp: "\<bar>sp - cf / qa\<bar> \<le> \<bar>cf / qa\<bar> * u"
  shows "\<bar>qa - sqrt c\<bar> \<le> sqrt c / 2 ^ 51" "\<bar>sp - sqrt c\<bar> \<le> sqrt c / 2 ^ 51"
    "0 < qa" "1 / 4 \<le> cf / qa"
proof -
  define s where "s = sqrt c"
  define a where "a = 1 - u"
  define b where "b = 1 + u"
  have s1: "1 \<le> s"
    using c by (simp add: s_def)
  then have s0: "0 < s"
    by simp
  have ss: "s * s = c"
    using c by (simp add: s_def)
  have ab: "0 < a" "a \<le> 1" "1 \<le> b" "0 < b"
    by (simp_all add: a_def b_def u_def)
  have cpos: "0 < c"
    using c by simp
  have cfb: "s * s * a \<le> cf" "cf \<le> s * s * b"
    using rel_bounds [OF cf cpos] by (simp_all add: ss a_def b_def)
  have t: "s * a \<le> sqrt cf" "sqrt cf \<le> s * b"
    using sqrt_between [OF s0 _ ab(2,3) cfb] ab(1) by simp_all
  have tpos: "0 < sqrt cf"
    using t(1) s0 ab(1) by (meson mult_pos_pos less_le_trans)
  have qab: "sqrt cf * a \<le> qa" "qa \<le> sqrt cf * b"
    using rel_bounds [OF qa tpos] by (simp_all add: a_def b_def)
  have qalo: "s * a * a \<le> qa"
  proof -
    have "s * a * a \<le> sqrt cf * a"
      using t(1) ab(1) by (intro mult_right_mono) simp_all
    then show ?thesis
      using qab(1) by linarith
  qed
  have qahi: "qa \<le> s * b * b"
  proof -
    have "sqrt cf * b \<le> s * b * b"
      using t(2) ab(4) by (intro mult_right_mono) simp_all
    then show ?thesis
      using qab(2) by linarith
  qed
  have qapos: "0 < qa"
    using qab(1) tpos ab(1) by (meson mult_pos_pos less_le_trans)
  show "0 < qa"
    by (rule qapos)
  have cfpos: "0 < cf"
    using tpos by simp
  have cft: "cf = sqrt cf * sqrt cf"
    using cfpos by simp
  have qlo: "sqrt cf / b \<le> cf / qa"
  proof -
    have "sqrt cf * qa \<le> sqrt cf * (sqrt cf * b)"
      using qab(2) tpos by (intro mult_left_mono) simp_all
    then have "sqrt cf * qa \<le> cf * b"
      using cft by (simp add: mult.assoc [symmetric])
    then show ?thesis
      using qapos ab(4) by (simp add: field_simps)
  qed
  have qhi: "cf / qa \<le> sqrt cf / a"
  proof -
    have "sqrt cf * (sqrt cf * a) \<le> sqrt cf * qa"
      using qab(1) tpos by (intro mult_left_mono) simp_all
    then have "cf * a \<le> sqrt cf * qa"
      using cft by (simp add: mult.assoc [symmetric])
    then show ?thesis
      using qapos ab(1) by (simp add: field_simps)
  qed
  have qpos: "0 < cf / qa"
    using cfpos qapos by simp
  have spb: "cf / qa * a \<le> sp" "sp \<le> cf / qa * b"
    using rel_bounds [OF sp qpos] by (simp_all add: a_def b_def)
  have q_lo: "s * a / b \<le> cf / qa"
  proof -
    have "s * a / b \<le> sqrt cf / b"
      using t(1) ab(4) by (intro divide_right_mono) simp_all
    then show ?thesis
      using qlo by linarith
  qed
  have q_hi: "cf / qa \<le> s * b / a"
  proof -
    have "sqrt cf / a \<le> s * b / a"
      using t(2) ab(1) by (intro divide_right_mono) simp_all
    then show ?thesis
      using qhi by linarith
  qed
  have sp_lo: "s * (a * a / b) \<le> sp"
  proof -
    have "s * a / b * a \<le> cf / qa * a"
      using q_lo ab(1) by (intro mult_right_mono) simp_all
    then show ?thesis
      using spb(1) by (simp add: field_simps)
  qed
  have sp_hi: "sp \<le> s * (b * b / a)"
  proof -
    have "cf / qa * b \<le> s * b / a * b"
      using q_hi ab(4) by (intro mult_right_mono) simp_all
    then show ?thesis
      using spb(2) by (simp add: field_simps)
  qed
  have n1: "1 - 1 / 2 ^ 51 \<le> a * a" "b * b \<le> 1 + 1 / 2 ^ 51"
    "1 - 1 / 2 ^ 51 \<le> a * a / b" "b * b / a \<le> 1 + 1 / 2 ^ 51" "1 / 4 \<le> a / b"
    by (simp_all add: a_def b_def u_def field_simps)
  define dd where "dd = s / 2 ^ 51"
  have e1: "s * (1 - 1 / 2 ^ 51) = s - dd" "s * (1 + 1 / 2 ^ 51) = s + dd"
    by (simp_all add: dd_def algebra_simps)
  have "s * (1 - 1 / 2 ^ 51) \<le> s * (a * a)"
    using n1(1) s0 by (intro mult_left_mono) simp_all
  also have "\<dots> \<le> qa"
    using qalo by (simp only: mult.assoc)
  finally have l1: "s - dd \<le> qa"
    by (simp only: e1)
  have "qa \<le> s * (b * b)"
    using qahi by (simp only: mult.assoc)
  also have "\<dots> \<le> s * (1 + 1 / 2 ^ 51)"
    using n1(2) s0 by (intro mult_left_mono) simp_all
  finally have h1: "qa \<le> s + dd"
    by (simp only: e1)
  have "\<bar>qa - s\<bar> \<le> dd"
    using l1 h1 by linarith
  then show "\<bar>qa - sqrt c\<bar> \<le> sqrt c / 2 ^ 51"
    by (simp only: s_def dd_def)
  have "s * (1 - 1 / 2 ^ 51) \<le> s * (a * a / b)"
    using n1(3) s0 by (intro mult_left_mono) simp_all
  also have "\<dots> \<le> sp"
    by (rule sp_lo)
  finally have l2: "s - dd \<le> sp"
    by (simp only: e1)
  have "sp \<le> s * (b * b / a)"
    by (rule sp_hi)
  also have "\<dots> \<le> s * (1 + 1 / 2 ^ 51)"
    using n1(4) s0 by (intro mult_left_mono) simp_all
  finally have h2: "sp \<le> s + dd"
    by (simp only: e1)
  have "\<bar>sp - s\<bar> \<le> dd"
    using l2 h2 by linarith
  then show "\<bar>sp - sqrt c\<bar> \<le> sqrt c / 2 ^ 51"
    by (simp only: s_def dd_def)
  have "0 \<le> a / b"
    using ab by simp
  then have "1 * (a / b) \<le> s * (a / b)"
    using s1 by (rule mult_right_mono [rotated])
  then have "a / b \<le> s * a / b"
    by simp
  then have "1 / 4 \<le> s * a / b"
    using n1(5) by (rule order_trans [rotated])
  then show "1 / 4 \<le> cf / qa"
    using q_lo by (rule order_trans)
qed


lemma tiny_le: "x \<le> y \<Longrightarrow> 1 / 4 \<le> x \<Longrightarrow> 2 powi (- 1022) \<le> \<bar>y::real\<bar>"
proof -
  assume a: "x \<le> y" "1 / 4 \<le> x"
  have "(2::real) powi (- 1022) \<le> 2 powi (- 2)"
    by (intro power_int_increasing) simp_all
  also have "\<dots> = 1 / 4"
    by (simp add: power_int_minus)
  finally show ?thesis
    using a by linarith
qed

lemma doubles_positive:
  assumes c: "0 < c" "real_of_int c < float_limit"
  defines "cf \<equiv> round_double (real_of_int c)"
  defines "qa \<equiv> round_double (sqrt cf)"
  defines "sp \<equiv> round_double (cf / qa)"
  shows "apply_grovers_speedup_double c = Inr (qa, sp)"
    and "simulate_quantum_threat_double c = Inr (round_double (qa / 10 ^ 8), qa)"
    and "\<bar>qa - sqrt (real_of_int c)\<bar> \<le> sqrt (real_of_int c) / 2 ^ 51"
    and "\<bar>sp - sqrt (real_of_int c)\<bar> \<le> sqrt (real_of_int c) / 2 ^ 51"
proof -
  define x where "x = real_of_int c"
  have x1: "1 \<le> x"
    using c(1) by (simp add: x_def)
  have e1: "\<bar>cf - x\<bar> \<le> \<bar>x\<bar> * (1 / 2 ^ 53)"
    using round_double_rel [of x] tiny_le [of 1 x] x1 by (simp add: cf_def x_def)
  have "x * (1 - 1 / 2 ^ 53) \<le> cf"
    using rel_bounds(1) [OF e1] x1 by simp
  moreover have "1 * (1 - 1 / 2 ^ 53) \<le> x * (1 - 1 / 2 ^ 53)"
    using x1 by (intro mult_right_mono) simp_all
  ultimately have cfq: "1 / 4 \<le> cf"
    by simp
  have "(1 / 4)\<^sup>2 \<le> cf"
    using cfq by (simp add: power2_eq_square)
  then have "1 / 4 \<le> sqrt cf"
    by (rule real_le_rsqrt)
  then have e2: "\<bar>qa - sqrt cf\<bar> \<le> \<bar>sqrt cf\<bar> * (1 / 2 ^ 53)"
    using round_double_rel [of "sqrt cf"] tiny_le [of "1 / 4" "sqrt cf"] by (simp add: qa_def)
  have e0: "\<bar>cf / qa - cf / qa\<bar> \<le> \<bar>cf / qa\<bar> * (1 / 2 ^ 53)"
    by simp
  note first = speedup_error [OF x1 e1 e2 e0]
  have qapos: "0 < qa"
    by (rule first(3))
  have e3: "\<bar>sp - cf / qa\<bar> \<le> \<bar>cf / qa\<bar> * (1 / 2 ^ 53)"
    using round_double_rel [of "cf / qa"] tiny_le [of "1 / 4" "cf / qa"] first(4)
    by (simp add: sp_def)
  note second = speedup_error [OF x1 e1 e2 e3]
  show "\<bar>qa - sqrt (real_of_int c)\<bar> \<le> sqrt (real_of_int c) / 2 ^ 51"
    using second(1) by (simp only: x_def)
  show "\<bar>sp - sqrt (real_of_int c)\<bar> \<le> sqrt (real_of_int c) / 2 ^ 51"
    using second(2) by (simp only: x_def)
  have fit: "\<bar>real_of_int c\<bar> < float_limit"
    using c by simp
  have i: "int_to_double c = Inr cf"
    using fit by (simp only: int_to_double_def cf_def if_True)
  have cf0: "\<not> cf < 0"
    using cfq by simp
  have m: "math_sqrt_double c = Inr qa"
    unfolding math_sqrt_double_def i by (simp only: sum.case cf0 if_False qa_def)
  show "apply_grovers_speedup_double c = Inr (qa, sp)"
    unfolding apply_grovers_speedup_double_def m i
    by (simp only: sum.case qapos if_True sp_def)
  show "simulate_quantum_threat_double c = Inr (round_double (qa / 10 ^ 8), qa)"
    unfolding simulate_quantum_threat_double_def m
    using c(1) by (simp add: GUESSES_PER_SEC_def)
qed

lemma doubles_overflow:
  assumes "0 < c" "\<not> real_of_int c < float_limit"
  shows "apply_grovers_speedup_double c = Inl OverflowError"
    and "simulate_quantum_threat_double c = Inl OverflowError"
  using assms
  by (simp_all add: apply_grovers_speedup_double_def simulate_quantum_threat_double_def
        math_sqrt_double_def int_to_double_def)

lemma doubles_zero:
  "apply_grovers_speedup_double 0 = Inr (0, 1)" "simulate_quantum_threat_double 0 = Inr (0, 1)"
  by (simp_all add: apply_grovers_speedup_double_def simulate_quantum_threat_double_def
        math_sqrt_double_def int_to_double_def round_double_def float_limit_def)

text \<open>
  C6, as the code has it on doubles. For positive combinations within the range of a
  double the two variants compute the speedup in two ways. Variant A returns the
  rounded quotient of the converted combinations by their rounded square root, variant
  B the rounded square root itself. Either is within \<open>sqrt c / 2^51\<close> of the exact
  square root \<open>sqrt c\<close>, but the quotient need not be the same double as the square
  root. Beyond the range of a double the conversion raises \<open>OverflowError\<close> and no
  speedup is reported. For zero combinations the reduced attempts are 0 and the
  speedup is 1.
\<close>

theorem speedup_rounded:
  "(0 < c \<longrightarrow> real_of_int c < float_limit \<longrightarrow>
      apply_grovers_speedup_double c =
        Inr (round_double (sqrt (round_double (real_of_int c))),
             round_double (round_double (real_of_int c) /
               round_double (sqrt (round_double (real_of_int c)))))
      \<and> simulate_quantum_threat_double c =
        Inr (round_double (round_double (sqrt (round_double (real_of_int c))) / 10 ^ 8),
             round_double (sqrt (round_double (real_of_int c))))
      \<and> \<bar>round_double (round_double (real_of_int c) /
               round_double (sqrt (round_double (real_of_int c)))) - sqrt (real_of_int c)\<bar>
          \<le> sqrt (real_of_int c) / 2 ^ 51
      \<and> \<bar>round_double (sqrt (round_double (real_of_int c))) - sqrt (real_of_int c)\<bar>
          \<le> sqrt (real_of_int c) / 2 ^ 51)
   \<and> (0 < h \<longrightarrow> \<not> real_of_int h < float_limit \<longrightarrow>
      apply_grovers_speedup_double h = Inl OverflowError
      \<and> simulate_quantum_threat_double h = Inl OverflowError)
   \<and> apply_grovers_speedup_double 0 = Inr (0, 1)
   \<and> simulate_quantum_threat_double 0 = Inr (0, 1)"
  using doubles_positive [of c] doubles_overflow [of h] doubles_zero by blast

text \<open>The instance at 26 and at \<open>2^1024\<close> combinations, and the zero case.\<close>

theorem speedup_rounded_witness:
  "apply_grovers_speedup_double 26 =
     Inr (round_double (sqrt (round_double 26)),
          round_double (round_double 26 / round_double (sqrt (round_double 26))))
   \<and> \<bar>round_double (round_double 26 / round_double (sqrt (round_double 26))) - sqrt 26\<bar>
       \<le> sqrt 26 / 2 ^ 51
   \<and> \<bar>round_double (sqrt (round_double 26)) - sqrt 26\<bar> \<le> sqrt 26 / 2 ^ 51
   \<and> apply_grovers_speedup_double (2 ^ 1024) = Inl OverflowError
   \<and> simulate_quantum_threat_double (2 ^ 1024) = Inl OverflowError
   \<and> apply_grovers_speedup_double 0 = Inr (0, 1)
   \<and> simulate_quantum_threat_double 0 = Inr (0, 1)"
proof -
  have "real_of_int 26 < float_limit" "\<not> real_of_int (2 ^ 1024) < float_limit"
    by (simp_all add: float_limit_def)
  then show ?thesis
    using speedup_rounded [of 26 "2 ^ 1024"] by simp
qed

text \<open>
  C6 as stated fails at 26 combinations: the square root is the double
  \<open>5740985595342838 / 2^50\<close>, printed \<open>5.0990195135927845\<close>, which is the reduced
  attempts of variant A and the speedup of variant B, while the speedup of variant A,
  the quotient, is the next double \<open>5740985595342839 / 2^50\<close>, printed
  \<open>5.099019513592785\<close>.
\<close>

theorem speedup_rounded_counterexample:
  "apply_grovers_speedup_double 26 =
     Inr (5740985595342838 / 2 ^ 50, 5740985595342839 / 2 ^ 50)
   \<and> simulate_quantum_threat_double 26 =
     Inr (round_double (5740985595342838 / 2 ^ 50 / 10 ^ 8), 5740985595342838 / 2 ^ 50)
   \<and> (5740985595342839 / 2 ^ 50 :: real) \<noteq> 5740985595342838 / 2 ^ 50"
  by (simp add: apply_grovers_speedup_double_26 simulate_quantum_threat_double_26)

text \<open>
  C5. Each classifier is a total function of the real entropy: it returns one of its
  variant's tiers, each tier exactly on its interval (breakpoints 40, 60, 80 for variant
  A, and 40, 60, 80, 128 for variant B), and a larger entropy never gives a lower tier.
\<close>

theorem strength_tiers:
  "fst (classify_strength e) \<in>
     {str_lit ''WEAK'', str_lit ''MEDIUM'', str_lit ''STRONG'', str_lit ''VERY STRONG''}
   \<and> (fst (classify_strength e) = str_lit ''WEAK'') = (e < 40)
   \<and> (fst (classify_strength e) = str_lit ''MEDIUM'') = (40 \<le> e \<and> e < 60)
   \<and> (fst (classify_strength e) = str_lit ''STRONG'') = (60 \<le> e \<and> e < 80)
   \<and> (fst (classify_strength e) = str_lit ''VERY STRONG'') = (80 \<le> e)
   \<and> (e \<le> e' \<longrightarrow>
        strength_rank (fst (classify_strength e)) \<le> strength_rank (fst (classify_strength e')))
   \<and> classify_security e \<in>
     {str_lit ''Very Weak'', str_lit ''Weak'', str_lit ''Moderate'', str_lit ''Strong'',
      str_lit ''Very Strong''}
   \<and> (classify_security e = str_lit ''Very Weak'') = (e < 40)
   \<and> (classify_security e = str_lit ''Weak'') = (40 \<le> e \<and> e < 60)
   \<and> (classify_security e = str_lit ''Moderate'') = (60 \<le> e \<and> e < 80)
   \<and> (classify_security e = str_lit ''Strong'') = (80 \<le> e \<and> e < 128)
   \<and> (classify_security e = str_lit ''Very Strong'') = (128 \<le> e)
   \<and> (e \<le> e' \<longrightarrow> security_rank (classify_security e) \<le> security_rank (classify_security e'))"
  by (simp add: classify_strength_def classify_security_def strength_rank_def security_rank_def
        str_lit_def)

text \<open>The instance at 45 and 90 bits.\<close>

theorem strength_tiers_witness:
  "fst (classify_strength 45) = str_lit ''MEDIUM''
   \<and> strength_rank (fst (classify_strength 45)) \<le> strength_rank (fst (classify_strength 90))
   \<and> classify_security 90 = str_lit ''Strong''
   \<and> security_rank (classify_security 45) \<le> security_rank (classify_security 90)"
  using strength_tiers [of 45 90] strength_tiers [of 90 90]
  by (simp add: strength_rank_def security_rank_def str_lit_def)

section \<open>The masked suggestion can be recovered\<close>

lemma w256: "(256 :: 8 word) = 0" by simp
lemma w65536: "(65536 :: 8 word) = 0" by simp

lemma d4096: "(n::nat) div 4096 = n div 64 div 64"
  by (simp add: div_mult2_eq [symmetric])

lemma d262144: "(n::nat) div 262144 = n div 64 div 64 div 64"
  by (simp add: div_mult2_eq [symmetric])

lemma join2: "n div 262144 * 64 + n div 4096 mod 64 = (n::nat) div 4096"
proof -
  have "n div 262144 = n div 4096 div 64"
    by (simp add: div_mult2_eq [symmetric])
  then show ?thesis
    by (simp only: div_mult_mod_eq)
qed

lemma join3: "(n div 262144 * 64 + n div 4096 mod 64) * 64 + n div 64 mod 64 = (n::nat) div 64"
proof -
  have "(n div 262144 * 64 + n div 4096 mod 64) * 64 + n div 64 mod 64 =
          n div 4096 * 64 + n div 64 mod 64"
    by (simp only: join2)
  also have "\<dots> = n div 64 div 64 * 64 + n div 64 mod 64"
    by (simp only: d4096)
  also have "\<dots> = n div 64"
    by (simp only: div_mult_mod_eq)
  finally show ?thesis .
qed

lemma join4:
  "((n div 262144 * 64 + n div 4096 mod 64) * 64 + n div 64 mod 64) * 64 + n mod 64 = (n::nat)"
  by (simp only: join3 div_mult_mod_eq)

lemma group3:
  fixes a b c :: "8 word"
  defines "n \<equiv> unat a * 65536 + unat b * 256 + unat c"
  shows "(of_nat (n div 65536) :: 8 word) = a" "(of_nat (n div 256) :: 8 word) = b"
        "(of_nat n :: 8 word) = c"
proof -
  have lt: "unat a < 256" "unat b < 256" "unat c < 256"
    using unsigned_less [of a] unsigned_less [of b] unsigned_less [of c] by simp_all
  have "n div 65536 = unat a"
    using lt by (simp add: n_def)
  then show "(of_nat (n div 65536) :: 8 word) = a" by simp
  have "n div 256 = unat a * 256 + unat b"
    using lt by (simp add: n_def)
  then have "(of_nat (n div 256) :: 8 word) = a * 256 + b"
    by simp
  then show "(of_nat (n div 256) :: 8 word) = b" by (simp only: w256 mult_zero_right add_0)
  have "(of_nat n :: 8 word) = a * 65536 + b * 256 + c"
    by (simp add: n_def)
  then show "(of_nat n :: 8 word) = c" by (simp only: w256 w65536 mult_zero_right add_0)
qed

lemma group2:
  fixes a b :: "8 word"
  defines "n \<equiv> unat a * 65536 + unat b * 256"
  shows "(of_nat (n div 64 div 1024) :: 8 word) = a"
    "(of_nat (n div 64 div 4) :: 8 word) = b"
proof -
  have lt: "unat a < 256" "unat b < 256"
    using unsigned_less [of a] unsigned_less [of b] by simp_all
  have "n div 64 div 1024 = n div 65536"
    by (simp add: div_mult2_eq [symmetric])
  also have "\<dots> = unat a"
    using lt by (simp add: n_def)
  finally show "(of_nat (n div 64 div 1024) :: 8 word) = a"
    by simp
  have "n div 64 div 4 = n div 256"
    by (simp add: div_mult2_eq [symmetric])
  also have "\<dots> = unat a * 256 + unat b"
    using lt by (simp add: n_def)
  finally have "(of_nat (n div 64 div 4) :: 8 word) = a * 256 + b"
    by simp
  then show "(of_nat (n div 64 div 4) :: 8 word) = b"
    by (simp only: w256 mult_zero_right add_0)
qed

lemma group1:
  fixes a :: "8 word"
  defines "n \<equiv> unat a * 65536"
  shows "(of_nat (n div 4096 div 16) :: 8 word) = a"
proof -
  have "n div 4096 div 16 = n div 65536"
    by (simp add: div_mult2_eq [symmetric])
  also have "\<dots> = unat a"
    by (simp add: n_def)
  finally show ?thesis by simp
qed


lemma b64_index_char_all:
  "list_all (\<lambda>i. b64_index (b64_char i) = Some i \<and> b64_char i \<noteq> 61) [0 ..< 64]"
  by code_simp

lemma b64_index_char: "i < 64 \<Longrightarrow> b64_index (b64_char i) = Some i"
  using b64_index_char_all by (simp add: list_all_iff)

lemma b64_char_not_pad: "i < 64 \<Longrightarrow> b64_char i \<noteq> 61"
  using b64_index_char_all by (simp add: list_all_iff)

lemma b64decode_block1:
  assumes "i0 < 64" "i1 < 64"
  shows "b64decode [b64_char i0, b64_char i1, 61, 61] = Some [of_nat ((i0 * 64 + i1) div 16)]"
  using assms by (simp add: b64_index_char)

lemma b64decode_block2:
  assumes "i0 < 64" "i1 < 64" "i2 < 64"
  shows "b64decode [b64_char i0, b64_char i1, b64_char i2, 61] =
           Some [of_nat (((i0 * 64 + i1) * 64 + i2) div 1024),
                 of_nat (((i0 * 64 + i1) * 64 + i2) div 4)]"
  using assms by (simp add: b64_index_char b64_char_not_pad Let_def)

lemma b64decode_block3:
  assumes "i0 < 64" "i1 < 64" "i2 < 64" "i3 < 64"
  shows "b64decode (b64_char i0 # b64_char i1 # b64_char i2 # b64_char i3 # rest) =
           map_option
             (\<lambda>bs. of_nat ((((i0 * 64 + i1) * 64 + i2) * 64 + i3) div 65536) #
                     of_nat ((((i0 * 64 + i1) * 64 + i2) * 64 + i3) div 256) #
                     of_nat (((i0 * 64 + i1) * 64 + i2) * 64 + i3) # bs)
             (b64decode rest)"
  using assms by (simp add: b64_index_char b64_char_not_pad Let_def)

lemma top_sextet:
  fixes a b c :: "8 word"
  shows "(unat a * 65536 + unat b * 256 + unat c) div 262144 < 64"
proof -
  have "unat a < 256" "unat b < 256" "unat c < 256"
    using unsigned_less [of a] unsigned_less [of b] unsigned_less [of c] by simp_all
  then show ?thesis by simp
qed

lemma b64_round_trip: "b64decode (b64encode bs) = Some bs"
proof (induction bs rule: b64encode.induct)
  case 1
  show ?case by simp
next
  case (2 a)
  define n where "n = unat a * 65536"
  have top: "n div 262144 < 64"
    using top_sextet [of a 0 0] by (simp add: n_def)
  have "b64decode (b64encode [a]) =
          b64decode [b64_char (n div 262144), b64_char (n div 4096 mod 64), 61, 61]"
    by (simp only: b64encode.simps Let_def n_def)
  also have "\<dots> = Some [of_nat ((n div 262144 * 64 + n div 4096 mod 64) div 16)]"
    using top by (intro b64decode_block1) simp_all
  also have "\<dots> = Some [a]"
    using group1 [of a] by (simp only: join2 n_def)
  finally show ?case .
next
  case (3 a b)
  define n where "n = unat a * 65536 + unat b * 256"
  have top: "n div 262144 < 64"
    using top_sextet [of a b 0] by (simp add: n_def)
  have "b64decode (b64encode [a, b]) =
          b64decode [b64_char (n div 262144), b64_char (n div 4096 mod 64),
                     b64_char (n div 64 mod 64), 61]"
    by (simp only: b64encode.simps Let_def n_def)
  also have "\<dots> =
      Some [of_nat (((n div 262144 * 64 + n div 4096 mod 64) * 64 + n div 64 mod 64) div 1024),
            of_nat (((n div 262144 * 64 + n div 4096 mod 64) * 64 + n div 64 mod 64) div 4)]"
    using top by (intro b64decode_block2) simp_all
  also have "\<dots> = Some [a, b]"
    using group2 [of a b] by (simp only: join3 n_def)
  finally show ?case .
next
  case (4 a b c rest)
  define n where "n = unat a * 65536 + unat b * 256 + unat c"
  define m where
    "m = ((n div 262144 * 64 + n div 4096 mod 64) * 64 + n div 64 mod 64) * 64 + n mod 64"
  have mn: "m = n"
    unfolding m_def by (rule join4)
  have top: "n div 262144 < 64"
    using top_sextet [of a b c] by (simp add: n_def)
  have "b64decode (b64encode (a # b # c # rest)) =
          b64decode (b64_char (n div 262144) # b64_char (n div 4096 mod 64) #
                     b64_char (n div 64 mod 64) # b64_char (n mod 64) # b64encode rest)"
    by (simp only: b64encode.simps Let_def n_def append.simps)
  also have "\<dots> =
      map_option (\<lambda>bs. of_nat (m div 65536) # of_nat (m div 256) # of_nat m # bs)
        (b64decode (b64encode rest))"
    unfolding m_def using top by (intro b64decode_block3) simp_all
  also have "\<dots> = Some (of_nat (n div 65536) # of_nat (n div 256) # of_nat n # rest)"
    by (simp only: "4.IH" mn option.map)
  also have "\<dots> = Some (a # b # c # rest)"
    using group3 [of a b c] by (simp add: n_def)
  finally show ?case .
qed

lemma hex_value_digit_all: "list_all (\<lambda>d. hex_value (hex_digit d) = Some d) [0 ..< 16]"
  by code_simp

lemma hex_value_digit: "d < 16 \<Longrightarrow> hex_value (hex_digit d) = Some d"
  using hex_value_digit_all by (simp add: list_all_iff)

lemma parse_hex_digits_append:
  "parse_hex_digits acc (xs @ ys) =
     (case parse_hex_digits acc xs of None \<Rightarrow> None | Some a \<Rightarrow> parse_hex_digits a ys)"
  by (induction xs arbitrary: acc) (auto split: option.splits)

lemma parse_hex_digits_hex:
  "parse_hex_digits acc (hex_digits n) = Some (acc * 16 ^ length (hex_digits n) + n)"
proof (induction n arbitrary: acc rule: hex_digits.induct)
  case (1 n)
  show ?case
  proof (cases "n < 16")
    case True
    then show ?thesis
      by (simp add: hex_digits.simps [of n] hex_value_digit)
  next
    case False
    have "parse_hex_digits acc (hex_digits n) =
            parse_hex_digits (acc * 16 ^ length (hex_digits (n div 16)) + n div 16)
              [hex_digit (n mod 16)]"
      using False "1.IH" [of acc]
      by (simp add: hex_digits.simps [of n] parse_hex_digits_append)
    also have "\<dots> = Some (16 * (acc * 16 ^ length (hex_digits (n div 16)) + n div 16) + n mod 16)"
      by (simp add: hex_value_digit)
    also have "\<dots> = Some (acc * 16 ^ length (hex_digits n) + n)"
      using False by (simp add: hex_digits.simps [of n] algebra_simps)
    finally show ?thesis .
  qed
qed

lemma hex_digits_not_Nil: "hex_digits n \<noteq> []"
  by (simp add: hex_digits.simps [of n])

lemma hex_round_trip: "int_of_hex (py_hex n) = Some n"
  by (simp add: int_of_hex_def py_hex_def str_lit_def hex_digits_not_Nil parse_hex_digits_hex)

lemma xor_mask_twice: "map (\<lambda>b. b XOR k) (map (\<lambda>b. b XOR k) bs) = (bs :: pybytes)"
  by (induction bs) (simp_all add: xor.assoc)

lemma decrypt_encrypt:
  assumes "str_encode suggestion = Inr plain"
  shows "\<exists>r. simulate_qkd_and_encrypt key_bits suggestion = Inr r \<and>
             decrypt_suggestion r = Some plain"
  using assms
  by (simp add: simulate_qkd_and_encrypt_def decrypt_suggestion_def Let_def ascii_decode_def
        hex_round_trip b64_round_trip xor_mask_twice comp_def xor.assoc)


lemma alphabet_ascii:
  "list_all (\<lambda>c. c < 128) (ascii_lowercase @ ascii_uppercase @ string_digits @ punctuation)"
  by code_simp

lemma alphabet_length:
  "length (ascii_lowercase @ ascii_uppercase @ string_digits @ punctuation) = 94"
  by (simp add: ascii_lowercase_def ascii_uppercase_def string_digits_def punctuation_def
        str_lit_def)

lemma generate_random_password_ascii:
  assumes "c \<in> set (generate_random_password dr n)"
  shows "c < 128"
proof -
  define al where "al = ascii_lowercase @ ascii_uppercase @ string_digits @ punctuation"
  have len: "length al = 94"
    unfolding al_def by (rule alphabet_length)
  have "generate_random_password dr n = map (\<lambda>i. al ! (dr i mod length al)) [0 ..< n]"
    by (simp only: generate_random_password_def Let_def al_def)
  with assms obtain i where "c = al ! (dr i mod length al)"
    by auto
  moreover have "dr i mod length al < length al"
    by (simp add: len)
  ultimately have "c \<in> set al"
    by (simp only: nth_mem)
  moreover have "list_all (\<lambda>c. c < 128) al"
    unfolding al_def by (rule alphabet_ascii)
  ultimately show ?thesis
    by (simp add: list_all_iff)
qed

lemma generate_random_password_length: "length (generate_random_password dr n) = n"
  by (simp add: generate_random_password_def Let_def)

lemma str_encode_ascii:
  "(\<And>c. c \<in> set s \<Longrightarrow> c < 128) \<Longrightarrow> str_encode s = Inr (map of_nat s)"
  by (induction s) (simp_all add: utf8_encode_char_def)

lemma ascii_decode_encode:
  "(\<And>c. c \<in> set s \<Longrightarrow> c < 128) \<Longrightarrow> ascii_decode (map of_nat s) = s"
proof (induction s)
  case Nil
  show ?case by (simp add: ascii_decode_def)
next
  case (Cons c s)
  have "c < 128" using Cons.prems by simp
  then have "unat (of_nat c :: 8 word) = c"
    by (simp add: unat_of_nat)
  moreover have "ascii_decode (map of_nat s) = s"
    using Cons by simp
  ultimately show ?case
    by (simp add: ascii_decode_def)
qed

text \<open>
  C3. Whenever a suggestion can be encoded, encryption succeeds, and decoding the base64
  text and XOR-ing every byte with the key modulo 256, the key read back from the
  hexadecimal fingerprint, gives the encoded suggestion again. For a generated
  replacement password, which is ASCII, and any measured key, the result read as text is
  the password itself.
\<close>

theorem qkd_round_trip:
  "(\<forall>plain. str_encode suggestion = Inr plain \<longrightarrow>
      (\<exists>r. simulate_qkd_and_encrypt key_bits suggestion = Inr r \<and>
           decrypt_suggestion r = Some plain))
   \<and> (\<exists>r. simulate_qkd_and_encrypt key_bits (generate_random_password dr n) = Inr r \<and>
           map_option ascii_decode (decrypt_suggestion r) =
             Some (generate_random_password dr n))"
proof -
  let ?pw = "generate_random_password dr n"
  have enc: "str_encode ?pw = Inr (map of_nat ?pw)"
    by (rule str_encode_ascii) (rule generate_random_password_ascii)
  have dec: "ascii_decode (map of_nat ?pw) = ?pw"
    by (rule ascii_decode_encode) (rule generate_random_password_ascii)
  obtain r where "simulate_qkd_and_encrypt key_bits ?pw = Inr r"
    "decrypt_suggestion r = Some (map of_nat ?pw)"
    using decrypt_encrypt [OF enc] by blast
  then have "\<exists>r. simulate_qkd_and_encrypt key_bits ?pw = Inr r \<and>
      map_option ascii_decode (decrypt_suggestion r) = Some ?pw"
    using dec by simp
  then show ?thesis
    using decrypt_encrypt by blast
qed

lemma demo_encode: "str_encode (str_lit ''hello'') = Inr (map of_nat (str_lit ''hello''))"
  by (simp add: str_lit_def utf8_encode_char_def)

lemma demo_key: "int_base2 (measured_bits demo_env) = 166"
  by (simp add: demo_env_def int_base2_def)

lemma demo_hex: "py_hex 166 = str_lit ''0xa6''"
  by (simp add: py_hex_def hex_digits.simps [of 166] hex_digits.simps [of 10] hex_digit_def str_lit_def)


lemma demo_b64:
  "ascii_decode (b64encode [206, 195, 202, 202, 201]) = str_lit ''zsPKysk=''"
  by (simp add: ascii_decode_def b64_char_def b64_alphabet_def str_lit_def Let_def)

lemma demo_encrypt:
  "simulate_qkd_and_encrypt (measured_bits demo_env) (str_lit ''hello'') =
     Inr \<lparr> ciphertext = str_lit ''zsPKysk='', qkd_key_fingerprint = str_lit ''0xa6'' \<rparr>"
proof -
  have "simulate_qkd_and_encrypt (measured_bits demo_env) (str_lit ''hello'') =
          Inr \<lparr> ciphertext =
                   ascii_decode (b64encode (map (\<lambda>b. b XOR of_nat (166 mod 256))
                     (map of_nat (str_lit ''hello'')))),
                 qkd_key_fingerprint = py_hex 166 \<rparr>"
    by (simp add: simulate_qkd_and_encrypt_def demo_encode demo_key Let_def)
  moreover have "map (\<lambda>b. b XOR of_nat (166 mod 256)) (map of_nat (str_lit ''hello'')) =
          [206, 195, 202, 202, 201 :: 8 word]"
    by (simp add: str_lit_def)
  ultimately show ?thesis
    by (simp only: demo_b64 demo_hex)
qed

text \<open>The instance at the suggestion \<open>hello\<close> and the key \<open>0xa6\<close>.\<close>

theorem qkd_round_trip_witness:
  "simulate_qkd_and_encrypt (measured_bits demo_env) (str_lit ''hello'') =
     Inr \<lparr> ciphertext = str_lit ''zsPKysk='', qkd_key_fingerprint = str_lit ''0xa6'' \<rparr>
   \<and> decrypt_suggestion \<lparr> ciphertext = str_lit ''zsPKysk='', qkd_key_fingerprint = str_lit ''0xa6'' \<rparr>
       = Some (map of_nat (str_lit ''hello''))"
  using qkd_round_trip [of "str_lit ''hello''" "measured_bits demo_env"] demo_encode
  by (simp add: demo_encrypt)

section \<open>The quantum guess rate\<close>

lemma sqrt_676: "sqrt 676 = 26"
  using real_sqrt_abs [of 26] by simp

text \<open>
  C1, as the code has it. In variant A the quantum crack time is the square root of the
  combinations divided by \<open>quantum_speed\<close>, which is \<open>10^12\<close> and differs from the
  classical \<open>10^8\<close>. Variant B has one rate only: its quantum crack time is the square
  root divided by \<open>GUESSES_PER_SEC\<close>, the same \<open>10^8\<close> as its classical time.
\<close>

theorem quantum_crack_time_rates:
  "(0 \<le> c \<longrightarrow> real_of_int c < float_limit \<longrightarrow>
      (\<exists>s. apply_grovers_speedup c = Inr (sqrt (real_of_int c), s))
      \<and> quantum_time_seconds (sqrt (real_of_int c)) = sqrt (real_of_int c) / 10 ^ 12
      \<and> calculate_quantum_crack_time fe ff (sqrt (real_of_int c)) =
          format_time fe ff (sqrt (real_of_int c) / 10 ^ 12)
      \<and> (\<exists>s. simulate_quantum_threat c = Inr (sqrt (real_of_int c) / 10 ^ 8, s)))
   \<and> real_of_int quantum_speed = 10 ^ 12
   \<and> real_of_int classical_speed = 10 ^ 8
   \<and> real_of_int GUESSES_PER_SEC = 10 ^ 8"
proof -
  have rates: "real_of_int quantum_speed = 10 ^ 12" "real_of_int classical_speed = 10 ^ 8"
    "real_of_int GUESSES_PER_SEC = 10 ^ 8"
    by (simp_all add: quantum_speed_def classical_speed_def GUESSES_PER_SEC_def)
  have a: "\<exists>s. apply_grovers_speedup c = Inr (sqrt (real_of_int c), s)"
    if "0 \<le> c" "real_of_int c < float_limit"
  proof (cases "c = 0")
    case True
    then show ?thesis by (simp add: apply_grovers_speedup_zero)
  next
    case False
    with that show ?thesis by (simp add: apply_grovers_speedup_pos)
  qed
  have b: "\<exists>s. simulate_quantum_threat c = Inr (sqrt (real_of_int c) / 10 ^ 8, s)"
    if "0 \<le> c" "real_of_int c < float_limit"
  proof (cases "c = 0")
    case True
    then show ?thesis by (simp add: simulate_quantum_threat_zero)
  next
    case False
    with that show ?thesis by (simp add: simulate_quantum_threat_pos rates)
  qed
  have t: "quantum_time_seconds x = x / 10 ^ 12" for x
    by (simp add: quantum_time_seconds_def rates)
  show ?thesis
    using a b by (simp add: rates t calculate_quantum_crack_time_def)
qed

text \<open>The instance at four combinations.\<close>

theorem quantum_crack_time_rates_witness:
  "(\<exists>s. apply_grovers_speedup 4 = Inr (2, s))
   \<and> quantum_time_seconds 2 = 2 / 10 ^ 12
   \<and> (\<exists>s. simulate_quantum_threat 4 = Inr (2 / 10 ^ 8, s))"
  using quantum_crack_time_rates [of 4] four_in_range by simp

text \<open>
  C1 as stated fails on variant B: for the 676 combinations of a two-letter lower-case
  password the quantum crack time is \<open>26 / 10^8\<close> seconds, not \<open>26 / 10^12\<close>.
\<close>

theorem quantum_crack_time_rates_counterexample:
  "simulate_quantum_threat 676 = Inr (26 / 10 ^ 8, 26)
   \<and> (26 :: real) / 10 ^ 8 \<noteq> sqrt 676 / 10 ^ 12"
proof -
  have "real_of_int 676 < float_limit"
    by (simp add: float_limit_def)
  then have "simulate_quantum_threat 676 = Inr (26 / 10 ^ 8, 26)"
    using simulate_quantum_threat_pos [of 676] by (simp add: sqrt_676 GUESSES_PER_SEC_def)
  then show ?thesis
    by (simp add: sqrt_676)
qed

section \<open>When variant B returns a report\<close>

lemma simulate_quantum_threat_overflow:
  "0 < N \<Longrightarrow> \<not> real_of_int N < float_limit \<Longrightarrow> simulate_quantum_threat N = Inl OverflowError"
  by (simp add: simulate_quantum_threat_def math_sqrt_overflow)

lemma float_limit_pos: "1 < float_limit"
  by (simp add: float_limit_def)

lemma int_true_div_guesses:
  assumes "0 < N" "real_of_int N < float_limit"
  shows "int_true_div N GUESSES_PER_SEC = Inr (real_of_int N / 10 ^ 8)"
proof -
  have "real_of_int N / 10 ^ 8 \<le> real_of_int N"
    using assms(1) by (simp add: field_simps)
  then have "\<bar>real_of_int N / 10 ^ 8\<bar> < float_limit"
    using assms by simp
  then show ?thesis
    by (simp add: int_true_div_def GUESSES_PER_SEC_def)
qed

lemma int_true_div_guesses_error:
  "int_true_div N GUESSES_PER_SEC = Inl e \<Longrightarrow> e = OverflowError"
  by (simp add: int_true_div_def GUESSES_PER_SEC_def split: if_splits)

lemma encrypt_generated:
  "\<exists>q. simulate_qkd_and_encrypt bits (generate_random_password dr n) = Inr q"
proof -
  have "str_encode (generate_random_password dr n) =
          Inr (map of_nat (generate_random_password dr n))"
    by (rule str_encode_ascii) (rule generate_random_password_ascii)
  from decrypt_encrypt [OF this] show ?thesis by blast
qed

lemma alphabet_power_pos: "0 < snd (detect_charsets pw) ^ n"
  using detect_charsets_ge_1 [of pw] by simp

lemma analyze_ok:
  assumes len: "real (length pw) < float_limit"
    and comb: "real_of_int (snd (detect_charsets pw) ^ length pw) < float_limit"
  shows "\<exists>q. simulate_qkd_and_encrypt (measured_bits w) (generate_random_password (draw w) 16) = Inr q \<and>
    analyze w pw =
      Inr \<lparr> input_password = pw,
             length_field = int (length pw),
             charsets_field = fst (detect_charsets pw),
             alphabet_size = snd (detect_charsets pw),
             combinations = snd (detect_charsets pw) ^ length pw,
             entropy_bits =
               py_round (real (length pw) * log 2 (real_of_int (snd (detect_charsets pw)))) 2,
             crack_time_seconds = real_of_int (snd (detect_charsets pw) ^ length pw) / 10 ^ 8,
             quantum_crack_time_seconds =
               sqrt (real_of_int (snd (detect_charsets pw) ^ length pw)) / 10 ^ 8,
             speedup_factor = sqrt (real_of_int (snd (detect_charsets pw) ^ length pw)),
             security_classification =
               classify_security
                 (real (length pw) * log 2 (real_of_int (snd (detect_charsets pw)))),
             suggestions =
               get_improvements (isdigit w) pw
                 (real (length pw) * log 2 (real_of_int (snd (detect_charsets pw)))),
             passphrase = str_lit ''Correct-Horse-Battery-Staple'',
             random_suggestion = generate_random_password (draw w) 16,
             quantum_encrypted = q \<rparr>"
proof -
  obtain cs A where dc: "detect_charsets pw = (cs, A)"
    by (cases "detect_charsets pw")
  have N: "0 < A ^ length pw" "real_of_int (A ^ length pw) < float_limit"
    using alphabet_power_pos [of pw "length pw"] comb by (simp_all add: dc)
  obtain q where q:
    "simulate_qkd_and_encrypt (measured_bits w) (generate_random_password (draw w) 16) = Inr q"
    using encrypt_generated by blast
  have L: "int_to_float (int (length pw)) = Inr (real (length pw))"
    using len by (simp add: int_to_float_def)
  have T: "simulate_quantum_threat (A ^ length pw) =
      Inr (sqrt (real_of_int (A ^ length pw)) / 10 ^ 8, sqrt (real_of_int (A ^ length pw)))"
    using simulate_quantum_threat_pos [OF N] by (simp add: GUESSES_PER_SEC_def)
  have "analyze w pw =
      Inr \<lparr> input_password = pw,
             length_field = int (length pw),
             charsets_field = cs,
             alphabet_size = A,
             combinations = A ^ length pw,
             entropy_bits = py_round (real (length pw) * log 2 (real_of_int A)) 2,
             crack_time_seconds = real_of_int (A ^ length pw) / 10 ^ 8,
             quantum_crack_time_seconds = sqrt (real_of_int (A ^ length pw)) / 10 ^ 8,
             speedup_factor = sqrt (real_of_int (A ^ length pw)),
             security_classification =
               classify_security (real (length pw) * log 2 (real_of_int A)),
             suggestions =
               get_improvements (isdigit w) pw (real (length pw) * log 2 (real_of_int A)),
             passphrase = str_lit ''Correct-Horse-Battery-Staple'',
             random_suggestion = generate_random_password (draw w) 16,
             quantum_encrypted = q \<rparr>"
    unfolding analyze_def dc Let_def prod.case
    by (simp only: L T q int_true_div_guesses [OF N] nat_int sum.case prod.case)
  then show ?thesis
    using q by (simp add: dc)
qed

lemma analyze_overflow:
  assumes "\<not> (real (length pw) < float_limit \<and>
              real_of_int (snd (detect_charsets pw) ^ length pw) < float_limit)"
  shows "analyze w pw = Inl OverflowError"
proof -
  obtain cs A where dc: "detect_charsets pw = (cs, A)"
    by (cases "detect_charsets pw")
  have pos: "0 < A ^ length pw"
    using alphabet_power_pos [of pw "length pw"] by (simp add: dc)
  show ?thesis
  proof (cases "real (length pw) < float_limit")
    case False
    then have "int_to_float (int (length pw)) = Inl OverflowError"
      by (simp add: int_to_float_def)
    then show ?thesis
      unfolding analyze_def dc Let_def prod.case by (simp only: sum.case)
  next
    case True
    then have L: "int_to_float (int (length pw)) = Inr (real (length pw))"
      by (simp add: int_to_float_def)
    from True assms have big: "\<not> real_of_int (A ^ length pw) < float_limit"
      by (simp add: dc)
    have T: "simulate_quantum_threat (A ^ length pw) = Inl OverflowError"
      using simulate_quantum_threat_overflow [OF pos big] .
    show ?thesis
    proof (cases "int_true_div (A ^ length pw) GUESSES_PER_SEC")
      case (Inl e)
      then have "e = OverflowError"
        by (rule int_true_div_guesses_error)
      with Inl show ?thesis
        unfolding analyze_def dc Let_def prod.case by (simp only: L nat_int sum.case)
    next
      case (Inr t)
      then show ?thesis
        unfolding analyze_def dc Let_def prod.case by (simp only: L T nat_int sum.case)
    qed
  qed
qed

section \<open>The report echoes the password\<close>

lemma detect_lower: "snd (detect_charsets (replicate (Suc n) 97)) = 26"
  by (simp add: detect_charsets_def Let_def list_ex_iff ascii_lowercase_def ascii_uppercase_def
        string_digits_def punctuation_def string_whitespace_def str_lit_def)

lemma detect_outside: "snd (detect_charsets (replicate n 233)) = 1"
  by (simp add: detect_charsets_def Let_def list_ex_iff ascii_lowercase_def ascii_uppercase_def
        string_digits_def punctuation_def string_whitespace_def str_lit_def)

text \<open>
  C10. Whenever variant B's \<open>analyze\<close> returns a report, its field
  \<open>input_password\<close> is the password that was passed in, unchanged; and a report is
  returned whenever the length and the search space fit a double.
\<close>

theorem report_echoes_password:
  "(real (length pw) < float_limit \<longrightarrow>
    real_of_int (snd (detect_charsets pw) ^ length pw) < float_limit \<longrightarrow>
      (\<exists>r. analyze w pw = Inr r))
   \<and> (\<forall>r. analyze w pw = Inr r \<longrightarrow> input_password r = pw)"
proof (intro conjI impI allI)
  assume "real (length pw) < float_limit"
    "real_of_int (snd (detect_charsets pw) ^ length pw) < float_limit"
  from analyze_ok [OF this] show "\<exists>r. analyze w pw = Inr r"
    by blast
next
  fix r assume r: "analyze w pw = Inr r"
  then have "real (length pw) < float_limit \<and>
      real_of_int (snd (detect_charsets pw) ^ length pw) < float_limit"
    using analyze_overflow [of pw w] by auto
  then obtain q where "analyze w pw = Inr \<lparr> input_password = pw,
             length_field = int (length pw),
             charsets_field = fst (detect_charsets pw),
             alphabet_size = snd (detect_charsets pw),
             combinations = snd (detect_charsets pw) ^ length pw,
             entropy_bits =
               py_round (real (length pw) * log 2 (real_of_int (snd (detect_charsets pw)))) 2,
             crack_time_seconds = real_of_int (snd (detect_charsets pw) ^ length pw) / 10 ^ 8,
             quantum_crack_time_seconds =
               sqrt (real_of_int (snd (detect_charsets pw) ^ length pw)) / 10 ^ 8,
             speedup_factor = sqrt (real_of_int (snd (detect_charsets pw) ^ length pw)),
             security_classification =
               classify_security
                 (real (length pw) * log 2 (real_of_int (snd (detect_charsets pw)))),
             suggestions =
               get_improvements (isdigit w) pw
                 (real (length pw) * log 2 (real_of_int (snd (detect_charsets pw)))),
             passphrase = str_lit ''Correct-Horse-Battery-Staple'',
             random_suggestion = generate_random_password (draw w) 16,
             quantum_encrypted = q \<rparr>"
    using analyze_ok [of pw w] by blast
  with r show "input_password r = pw"
    by auto
qed

lemma three_in_range:
  "real (length (replicate 3 (97::nat))) < float_limit"
  "real_of_int (snd (detect_charsets (replicate 3 97)) ^ length (replicate 3 (97::nat))) < float_limit"
  using detect_lower [of 2] by (simp_all add: float_limit_def numeral_3_eq_3)

text \<open>The instance at the password \<open>aaa\<close>.\<close>

theorem report_echoes_password_witness:
  "\<exists>r. analyze demo_env (replicate 3 97) = Inr r \<and> input_password r = replicate 3 97"
  using report_echoes_password [of "replicate 3 97" demo_env] three_in_range by blast

section \<open>When variant A returns a report\<close>

lemma charset_size_selected:
  "l \<or> u \<or> d \<or> s \<Longrightarrow> 8 \<le> fst (calculate_charset_size l u d s)"
  by (auto simp add: calculate_charset_size_fst)

lemma charset_size_none: "fst (calculate_charset_size False False False False) = 0"
  by (simp add: calculate_charset_size_fst)

lemma analyze_password_steps:
  assumes "calculate_charset_size l u d s = (k, details)"
    and "calculate_classical_combinations k len = Inr combs"
    and "format_2e_check combs = Inr p1"
    and "calculate_entropy k len = Inr ent"
    and "math_log2 k = Inr p2"
    and "calculate_classical_crack_time (float_2e rt) (float_2f rt) combs = Inr ct"
    and "apply_grovers_speedup_num combs = Inr (qa, sp)"
  shows "analyze_password rt len l u d s c =
    (case backend rt (min len 8) of
       Inl e \<Rightarrow> Inl e
     | Inr key \<Rightarrow>
         Inr \<lparr> rep_length = len,
                rep_charset_size = k,
                rep_classical_combinations = combs,
                rep_entropy = ent,
                rep_classical_time = ct,
                rep_quantum_attempts = qa,
                rep_quantum_time = calculate_quantum_crack_time (float_2e rt) (float_2f rt) qa,
                rep_classical_strength = fst (classify_strength ent),
                rep_quantum_vulnerability =
                  assess_quantum_vulnerability ct
                    (calculate_quantum_crack_time (float_2e rt) (float_2f rt) qa),
                rep_quantum_hash =
                  str_lit ''QKD-'' @ key @ str_lit ''-'' @
                    format_04d (str_hash rt key mod 10000),
                rep_quantum_key = key \<rparr>)"
  unfolding analyze_password_def assms Let_def prod.case sum.case
    quantum_encrypt_password_def create_quantum_key_def
  by (cases "backend rt (min len 8)") (simp_all add: case_prod_beta)

lemma format_2e_check_int:
  assumes "0 < N" "real_of_int N < float_limit"
  shows "format_2e_check (PyInt N) = Inr ()"
  using assms by (simp add: format_2e_check_def int_to_float_def)

lemma classical_crack_time_int:
  assumes "0 < N" "real_of_int N < float_limit"
  shows "calculate_classical_crack_time fe ff (PyInt N) =
           Inr (format_time fe ff (real_of_int N / 10 ^ 8))"
proof -
  have "real_of_int N / 10 ^ 8 \<le> real_of_int N"
    using assms(1) by (simp add: field_simps)
  then have "\<bar>real_of_int N / 10 ^ 8\<bar> < float_limit"
    using assms by simp
  then show ?thesis
    by (simp add: calculate_classical_crack_time_def classical_time_seconds_def
          int_true_div_def classical_speed_def)
qed

lemma analyze_password_nonneg:
  assumes len: "0 \<le> len"
    and sel: "l \<or> u \<or> d \<or> s"
    and fit: "real_of_int (fst (calculate_charset_size l u d s) ^ nat len) < float_limit"
  shows "analyze_password rt len l u d s c =
    (case backend rt (min len 8) of
       Inl e \<Rightarrow> Inl e
     | Inr key \<Rightarrow>
         Inr \<lparr> rep_length = len,
                rep_charset_size = fst (calculate_charset_size l u d s),
                rep_classical_combinations =
                  PyInt (fst (calculate_charset_size l u d s) ^ nat len),
                rep_entropy =
                  real_of_int len * log 2 (real_of_int (fst (calculate_charset_size l u d s))),
                rep_classical_time =
                  format_time (float_2e rt) (float_2f rt)
                    (real_of_int (fst (calculate_charset_size l u d s) ^ nat len) / 10 ^ 8),
                rep_quantum_attempts =
                  sqrt (real_of_int (fst (calculate_charset_size l u d s) ^ nat len)),
                rep_quantum_time =
                  calculate_quantum_crack_time (float_2e rt) (float_2f rt)
                    (sqrt (real_of_int (fst (calculate_charset_size l u d s) ^ nat len))),
                rep_classical_strength =
                  fst (classify_strength
                    (real_of_int len *
                      log 2 (real_of_int (fst (calculate_charset_size l u d s))))),
                rep_quantum_vulnerability =
                  assess_quantum_vulnerability
                    (format_time (float_2e rt) (float_2f rt)
                      (real_of_int (fst (calculate_charset_size l u d s) ^ nat len) / 10 ^ 8))
                    (calculate_quantum_crack_time (float_2e rt) (float_2f rt)
                      (sqrt (real_of_int (fst (calculate_charset_size l u d s) ^ nat len)))),
                rep_quantum_hash =
                  str_lit ''QKD-'' @ key @ str_lit ''-'' @
                    format_04d (str_hash rt key mod 10000),
                rep_quantum_key = key \<rparr>)"
proof -
  obtain k details where cs: "calculate_charset_size l u d s = (k, details)"
    by (cases "calculate_charset_size l u d s")
  have k8: "8 \<le> k"
    using charset_size_selected [OF sel] by (simp add: cs)
  have fitk: "real_of_int (k ^ nat len) < float_limit"
    using fit by (simp add: cs)
  have pos: "0 < k ^ nat len"
    using k8 by simp
  have "real_of_int len < real_of_int (k ^ nat len)"
  proof -
    have "nat len < 2 ^ nat len"
      by (rule less_exp)
    also have "\<dots> \<le> (nat k) ^ nat len"
      using k8 by (intro power_mono) auto
    finally have "int (nat len) < int (nat k ^ nat len)"
      by (simp only: of_nat_less_iff)
    then have "len < k ^ nat len"
      using len k8 by simp
    then show ?thesis
      by (simp only: of_int_less_iff)
  qed
  then have "real_of_int len < float_limit"
    using fitk by (rule less_trans)
  then have lenfit: "\<bar>real_of_int len\<bar> < float_limit"
    using len by simp
  have s1: "calculate_classical_combinations k len = Inr (PyInt (k ^ nat len))"
    using len by (simp add: calculate_classical_combinations_def)
  have s2: "format_2e_check (PyInt (k ^ nat len)) = Inr ()"
    using pos fitk by (rule format_2e_check_int)
  have s3: "calculate_entropy k len = Inr (real_of_int len * log 2 (real_of_int k))"
    using k8 lenfit by (simp add: calculate_entropy_def int_to_float_def)
  have s4: "math_log2 k = Inr (log 2 (real_of_int k))"
    using k8 by (simp add: math_log2_def)
  have s5: "calculate_classical_crack_time (float_2e rt) (float_2f rt) (PyInt (k ^ nat len)) =
      Inr (format_time (float_2e rt) (float_2f rt) (real_of_int (k ^ nat len) / 10 ^ 8))"
    using pos fitk by (rule classical_crack_time_int)
  have s6: "apply_grovers_speedup_num (PyInt (k ^ nat len)) =
      Inr (sqrt (real_of_int (k ^ nat len)),
           real_of_int (k ^ nat len) / sqrt (real_of_int (k ^ nat len)))"
    using apply_grovers_speedup_pos [OF pos fitk]
    by (simp only: apply_grovers_speedup_num_def pynum.case)
  show ?thesis
    using analyze_password_steps [OF cs s1 s2 s3 s4 s5 s6, of c] by (simp only: cs fst_conv)
qed

lemma analyze_password_too_long:
  assumes len: "0 \<le> len"
    and sel: "l \<or> u \<or> d \<or> s"
    and big: "\<not> real_of_int (fst (calculate_charset_size l u d s) ^ nat len) < float_limit"
  shows "analyze_password rt len l u d s c = Inl OverflowError"
proof -
  obtain k details where cs: "calculate_charset_size l u d s = (k, details)"
    by (cases "calculate_charset_size l u d s")
  have k8: "8 \<le> k"
    using charset_size_selected [OF sel] by (simp add: cs)
  have bigk: "\<not> real_of_int (k ^ nat len) < float_limit"
    using big by (simp add: cs)
  have pos: "0 < k ^ nat len"
    using k8 by simp
  have s1: "calculate_classical_combinations k len = Inr (PyInt (k ^ nat len))"
    using len by (simp add: calculate_classical_combinations_def)
  have s2: "format_2e_check (PyInt (k ^ nat len)) = Inl OverflowError"
    using bigk pos by (simp add: format_2e_check_def int_to_float_def)
  show ?thesis
    unfolding analyze_password_def cs Let_def prod.case s1 sum.case s2 ..
qed

lemma power_342_big:
  assumes "8 \<le> k" "342 \<le> len"
  shows "\<not> real_of_int (k ^ nat len) < float_limit"
proof -
  have "(2::int) ^ 1024 \<le> 8 ^ 342"
    by simp
  also have "\<dots> \<le> 8 ^ nat len"
    using assms(2) by (intro power_increasing) auto
  also have "\<dots> \<le> k ^ nat len"
    using assms(1) by (intro power_mono) auto
  finally have "real_of_int (2 ^ 1024) \<le> real_of_int (k ^ nat len)"
    by (simp only: of_int_le_iff)
  moreover have "float_limit < real_of_int (2 ^ 1024)"
    by (simp add: float_limit_def)
  ultimately show ?thesis
    by simp
qed

lemma analyze_password_342:
  assumes "342 \<le> len" "l \<or> u \<or> d \<or> s"
  shows "analyze_password rt len l u d s c = Inl OverflowError"
proof -
  have "\<not> real_of_int (fst (calculate_charset_size l u d s) ^ nat len) < float_limit"
    using power_342_big [OF charset_size_selected [OF assms(2)] assms(1)] .
  moreover have "0 \<le> len"
    using assms(1) by simp
  ultimately show ?thesis
    using assms(2) by (intro analyze_password_too_long)
qed

lemma analyze_password_no_class:
  assumes "0 \<le> len"
  shows "analyze_password rt len False False False False c = Inl ValueError"
proof -
  obtain details where cs: "calculate_charset_size False False False False = (0, details)"
    using charset_size_none by (cases "calculate_charset_size False False False False") simp
  have s1: "calculate_classical_combinations 0 len = Inr (PyInt (0 ^ nat len))"
    using assms by (simp add: calculate_classical_combinations_def)
  have s2: "format_2e_check (PyInt (0 ^ nat len)) = Inr ()"
    using float_limit_pos by (simp add: format_2e_check_def int_to_float_def power_0_left)
  have s3: "calculate_entropy 0 len = Inr 0"
    by (simp add: calculate_entropy_def)
  have s4: "math_log2 0 = Inl ValueError"
    by (simp add: math_log2_def)
  show ?thesis
    unfolding analyze_password_def cs Let_def prod.case s1 sum.case s2 s3 s4 ..
qed

lemma analyze_password_no_class_negative:
  assumes "len < 0" "\<bar>real_of_int len\<bar> < float_limit"
  shows "analyze_password rt len False False False False c = Inl ZeroDivisionError"
proof -
  obtain details where cs: "calculate_charset_size False False False False = (0, details)"
    using charset_size_none by (cases "calculate_charset_size False False False False") simp
  have s1: "calculate_classical_combinations 0 len = Inl ZeroDivisionError"
    using assms float_limit_pos by (simp add: calculate_classical_combinations_def int_to_float_def)
  show ?thesis
    unfolding analyze_password_def cs Let_def prod.case s1 sum.case ..
qed

lemma analyze_password_negative:
  assumes len: "len < 0" "\<bar>real_of_int len\<bar> < float_limit"
    and sel: "l \<or> u \<or> d \<or> s"
  shows "analyze_password rt len l u d s c =
    (case backend rt len of
       Inl e \<Rightarrow> Inl e
     | Inr key \<Rightarrow>
         Inr \<lparr> rep_length = len,
                rep_charset_size = fst (calculate_charset_size l u d s),
                rep_classical_combinations =
                  PyFloat (real_of_int (fst (calculate_charset_size l u d s)) powi len),
                rep_entropy =
                  real_of_int len * log 2 (real_of_int (fst (calculate_charset_size l u d s))),
                rep_classical_time =
                  format_time (float_2e rt) (float_2f rt)
                    (real_of_int (fst (calculate_charset_size l u d s)) powi len / 10 ^ 8),
                rep_quantum_attempts =
                  sqrt (real_of_int (fst (calculate_charset_size l u d s)) powi len),
                rep_quantum_time =
                  calculate_quantum_crack_time (float_2e rt) (float_2f rt)
                    (sqrt (real_of_int (fst (calculate_charset_size l u d s)) powi len)),
                rep_classical_strength =
                  fst (classify_strength
                    (real_of_int len *
                      log 2 (real_of_int (fst (calculate_charset_size l u d s))))),
                rep_quantum_vulnerability =
                  assess_quantum_vulnerability
                    (format_time (float_2e rt) (float_2f rt)
                      (real_of_int (fst (calculate_charset_size l u d s)) powi len / 10 ^ 8))
                    (calculate_quantum_crack_time (float_2e rt) (float_2f rt)
                      (sqrt (real_of_int (fst (calculate_charset_size l u d s)) powi len))),
                rep_quantum_hash =
                  str_lit ''QKD-'' @ key @ str_lit ''-'' @
                    format_04d (str_hash rt key mod 10000),
                rep_quantum_key = key \<rparr>)"
proof -
  obtain k details where cs: "calculate_charset_size l u d s = (k, details)"
    by (cases "calculate_charset_size l u d s")
  have k8: "8 \<le> k"
    using charset_size_selected [OF sel] by (simp add: cs)
  have kfit: "\<bar>real_of_int k\<bar> < float_limit"
  proof -
    have "k \<le> 70"
      using calculate_charset_size_fst [of l u d s] by (simp add: cs split: if_splits)
    then have "real_of_int k \<le> 70"
      by simp
    moreover have "70 < float_limit"
      by (simp add: float_limit_def)
    ultimately show ?thesis
      using k8 by simp
  qed
  have ppos: "0 < real_of_int k powi len"
    using k8 by (intro zero_less_power_int) simp
  have s1: "calculate_classical_combinations k len = Inr (PyFloat (real_of_int k powi len))"
    using len k8 kfit by (simp add: calculate_classical_combinations_def int_to_float_def)
  have s2: "format_2e_check (PyFloat (real_of_int k powi len)) = Inr ()"
    by (simp add: format_2e_check_def)
  have s3: "calculate_entropy k len = Inr (real_of_int len * log 2 (real_of_int k))"
    using k8 len by (simp add: calculate_entropy_def int_to_float_def)
  have s4: "math_log2 k = Inr (log 2 (real_of_int k))"
    using k8 by (simp add: math_log2_def)
  have s5: "calculate_classical_crack_time (float_2e rt) (float_2f rt)
        (PyFloat (real_of_int k powi len)) =
      Inr (format_time (float_2e rt) (float_2f rt) (real_of_int k powi len / 10 ^ 8))"
    by (simp add: calculate_classical_crack_time_def classical_time_seconds_def
          classical_speed_def)
  have s6: "apply_grovers_speedup_num (PyFloat (real_of_int k powi len)) =
      Inr (sqrt (real_of_int k powi len),
           real_of_int k powi len / sqrt (real_of_int k powi len))"
    using ppos
    by (simp add: apply_grovers_speedup_num_def apply_grovers_speedup_float_def Let_def)
  have m: "min len 8 = len"
    using len by simp
  show ?thesis
    using analyze_password_steps [OF cs s1 s2 s3 s4 s5 s6, of c]
    by (simp only: cs fst_conv m)
qed

lemma analyze_password_huge_negative:
  assumes "len < 0" "\<not> \<bar>real_of_int len\<bar> < float_limit"
  shows "analyze_password rt len l u d s c = Inl OverflowError"
proof -
  obtain k details where cs: "calculate_charset_size l u d s = (k, details)"
    by (cases "calculate_charset_size l u d s")
  have "0 \<le> k" "k \<le> 70"
    using calculate_charset_size_fst [of l u d s] by (simp_all add: cs split: if_splits)
  then have "0 \<le> real_of_int k" "real_of_int k \<le> 70"
    by simp_all
  moreover have "70 < float_limit"
    by (simp add: float_limit_def)
  ultimately have kfit: "\<bar>real_of_int k\<bar> < float_limit"
    by simp
  have s1: "calculate_classical_combinations k len = Inl OverflowError"
    using assms kfit by (simp add: calculate_classical_combinations_def int_to_float_def)
  show ?thesis
    unfolding analyze_password_def cs Let_def prod.case s1 sum.case ..
qed

lemma analyze_password_report_iff:
  assumes len: "0 \<le> len" and sel: "l \<or> u \<or> d \<or> s"
  shows "(\<exists>r. analyze_password rt len l u d s c = Inr r) =
           (real_of_int (fst (calculate_charset_size l u d s) ^ nat len) < float_limit \<and>
            (\<exists>key. backend rt (min len 8) = Inr key))"
proof (cases "real_of_int (fst (calculate_charset_size l u d s) ^ nat len) < float_limit")
  case True
  show ?thesis
    using True analyze_password_nonneg [OF len sel True, of rt c]
    by (cases "backend rt (min len 8)") simp_all
next
  case False
  show ?thesis
    using False analyze_password_too_long [OF len sel False, of rt c] by simp
qed

lemma analyze_password_negative_backend:
  assumes len: "len < 0" "\<bar>real_of_int len\<bar> < float_limit"
    and sel: "l \<or> u \<or> d \<or> s"
  shows "(\<forall>e. backend rt len = Inl e \<longrightarrow> analyze_password rt len l u d s c = Inl e) \<and>
    (\<forall>key. backend rt len = Inr key \<longrightarrow>
       (\<exists>r. analyze_password rt len l u d s c = Inr r \<and> rep_length r = len \<and>
            rep_quantum_key r = key))"
  using analyze_password_negative [OF len sel, of rt c]
  by (cases "backend rt len") simp_all

section \<open>The search space\<close>


lemma analyze_fields:
  assumes r: "analyze w pw = Inr r"
  shows "alphabet_size r = snd (detect_charsets pw)"
    and "length_field r = int (length pw)"
    and "combinations r = snd (detect_charsets pw) ^ length pw"
    and "entropy_bits r =
           py_round (real (length pw) * log 2 (real_of_int (snd (detect_charsets pw)))) 2"
    and "crack_time_seconds r = real_of_int (snd (detect_charsets pw) ^ length pw) / 10 ^ 8"
    and "quantum_crack_time_seconds r =
           sqrt (real_of_int (snd (detect_charsets pw) ^ length pw)) / 10 ^ 8"
    and "security_classification r =
           classify_security (real (length pw) * log 2 (real_of_int (snd (detect_charsets pw))))"
proof -
  have fit: "real (length pw) < float_limit \<and>
      real_of_int (snd (detect_charsets pw) ^ length pw) < float_limit"
  proof (rule ccontr)
    assume "\<not> (real (length pw) < float_limit \<and>
      real_of_int (snd (detect_charsets pw) ^ length pw) < float_limit)"
    then have "analyze w pw = Inl OverflowError"
      by (rule analyze_overflow)
    with r show False
      by simp
  qed
  obtain q where "analyze w pw = Inr \<lparr> input_password = pw,
             length_field = int (length pw),
             charsets_field = fst (detect_charsets pw),
             alphabet_size = snd (detect_charsets pw),
             combinations = snd (detect_charsets pw) ^ length pw,
             entropy_bits =
               py_round (real (length pw) * log 2 (real_of_int (snd (detect_charsets pw)))) 2,
             crack_time_seconds = real_of_int (snd (detect_charsets pw) ^ length pw) / 10 ^ 8,
             quantum_crack_time_seconds =
               sqrt (real_of_int (snd (detect_charsets pw) ^ length pw)) / 10 ^ 8,
             speedup_factor = sqrt (real_of_int (snd (detect_charsets pw) ^ length pw)),
             security_classification =
               classify_security
                 (real (length pw) * log 2 (real_of_int (snd (detect_charsets pw)))),
             suggestions =
               get_improvements (isdigit w) pw
                 (real (length pw) * log 2 (real_of_int (snd (detect_charsets pw)))),
             passphrase = str_lit ''Correct-Horse-Battery-Staple'',
             random_suggestion = generate_random_password (draw w) 16,
             quantum_encrypted = q \<rparr>"
    using analyze_ok [of pw w] fit by blast
  then have req: "r = \<lparr> input_password = pw,
             length_field = int (length pw),
             charsets_field = fst (detect_charsets pw),
             alphabet_size = snd (detect_charsets pw),
             combinations = snd (detect_charsets pw) ^ length pw,
             entropy_bits =
               py_round (real (length pw) * log 2 (real_of_int (snd (detect_charsets pw)))) 2,
             crack_time_seconds = real_of_int (snd (detect_charsets pw) ^ length pw) / 10 ^ 8,
             quantum_crack_time_seconds =
               sqrt (real_of_int (snd (detect_charsets pw) ^ length pw)) / 10 ^ 8,
             speedup_factor = sqrt (real_of_int (snd (detect_charsets pw) ^ length pw)),
             security_classification =
               classify_security
                 (real (length pw) * log 2 (real_of_int (snd (detect_charsets pw)))),
             suggestions =
               get_improvements (isdigit w) pw
                 (real (length pw) * log 2 (real_of_int (snd (detect_charsets pw)))),
             passphrase = str_lit ''Correct-Horse-Battery-Staple'',
             random_suggestion = generate_random_password (draw w) 16,
             quantum_encrypted = q \<rparr>"
    using r by (simp only: sum.inject)
  show "alphabet_size r = snd (detect_charsets pw)"
    by (simp only: req report.select_convs)
  show "length_field r = int (length pw)"
    by (simp only: req report.select_convs)
  show "combinations r = snd (detect_charsets pw) ^ length pw"
    by (simp only: req report.select_convs)
  show "entropy_bits r =
           py_round (real (length pw) * log 2 (real_of_int (snd (detect_charsets pw)))) 2"
    by (simp only: req report.select_convs)
  show "crack_time_seconds r = real_of_int (snd (detect_charsets pw) ^ length pw) / 10 ^ 8"
    by (simp only: req report.select_convs)
  show "quantum_crack_time_seconds r =
           sqrt (real_of_int (snd (detect_charsets pw) ^ length pw)) / 10 ^ 8"
    by (simp only: req report.select_convs)
  show "security_classification r =
           classify_security (real (length pw) * log 2 (real_of_int (snd (detect_charsets pw))))"
    by (simp only: req report.select_convs)
qed


lemma calculate_entropy_ok:
  "1 \<le> k \<Longrightarrow> \<bar>real_of_int n\<bar> < float_limit \<Longrightarrow>
     calculate_entropy k n = Inr (real_of_int n * log 2 (real_of_int k))"
  by (simp add: calculate_entropy_def int_to_float_def)









section \<open>A longer password is never weaker\<close>

lemma round_half_even_mono:
  assumes "x \<le> y"
  shows "round_half_even x \<le> round_half_even y"
proof -
  have fl: "\<lfloor>x\<rfloor> \<le> \<lfloor>y\<rfloor>"
    using assms by (rule floor_mono)
  have bx: "round_half_even x \<le> \<lfloor>x\<rfloor> + 1"
    by (simp add: round_half_even_def Let_def)
  have by': "\<lfloor>y\<rfloor> \<le> round_half_even y"
    by (simp add: round_half_even_def Let_def)
  show ?thesis
  proof (cases "\<lfloor>x\<rfloor> < \<lfloor>y\<rfloor>")
    case True
    then show ?thesis using bx by' by linarith
  next
    case False
    then have eq: "\<lfloor>x\<rfloor> = \<lfloor>y\<rfloor>" using fl by simp
    then have "x - real_of_int \<lfloor>y\<rfloor> \<le> y - real_of_int \<lfloor>y\<rfloor>"
      using assms by simp
    then show ?thesis
      by (auto simp: round_half_even_def Let_def eq)
  qed
qed

lemma py_round_mono: "x \<le> y \<Longrightarrow> py_round x 2 \<le> py_round y 2"
proof -
  assume "x \<le> y"
  then have "x * 10 ^ 2 \<le> y * 10 ^ 2" by simp
  then have "round_half_even (x * 10 ^ 2) \<le> round_half_even (y * 10 ^ 2)"
    by (rule round_half_even_mono)
  then show ?thesis
    by (simp add: py_round_def divide_right_mono)
qed

lemma combinations_value:
  assumes "1 \<le> k" "calculate_classical_combinations k n = Inr c"
  shows "pynum_value c = real_of_int k powi n"
proof (cases "0 \<le> n")
  case True
  then have "c = PyInt (k ^ nat n)"
    using assms(2) by (simp add: calculate_classical_combinations_def)
  then show ?thesis
    using True by (simp add: power_int_def)
next
  case False
  then have "c = PyFloat (real_of_int k powi n)"
    using assms
    by (simp add: calculate_classical_combinations_def int_to_float_def split: if_splits)
  then show ?thesis
    by simp
qed

lemma classical_time_seconds_value:
  "classical_time_seconds c = Inr t \<Longrightarrow> t = pynum_value c / 10 ^ 8"
  by (cases c)
     (simp_all add: classical_time_seconds_def int_true_div_def classical_speed_def
        split: if_splits)

lemma apply_grovers_speedup_num_value:
  "apply_grovers_speedup_num c = Inr (q, sp) \<Longrightarrow> q = sqrt (pynum_value c)"
  by (cases c)
     (auto simp add: apply_grovers_speedup_num_def apply_grovers_speedup_def
        apply_grovers_speedup_float_def math_sqrt_def int_to_float_def Let_def
        split: if_splits sum.splits)

lemma calculate_entropy_value:
  "1 \<le> k \<Longrightarrow> calculate_entropy k n = Inr e \<Longrightarrow> e = real_of_int n * log 2 (real_of_int k)"
  by (simp add: calculate_entropy_def int_to_float_def split: if_splits)

lemma functions_monotone:
  assumes k: "1 \<le> k" and n: "n1 \<le> n2"
    and c1: "calculate_classical_combinations k n1 = Inr c1"
    and c2: "calculate_classical_combinations k n2 = Inr c2"
  shows "pynum_value c1 \<le> pynum_value c2"
    and "classical_time_seconds c1 = Inr t1 \<Longrightarrow> classical_time_seconds c2 = Inr t2 \<Longrightarrow> t1 \<le> t2"
    and "apply_grovers_speedup_num c1 = Inr (q1, s1) \<Longrightarrow>
         apply_grovers_speedup_num c2 = Inr (q2, s2) \<Longrightarrow>
         q1 \<le> q2 \<and> quantum_time_seconds q1 \<le> quantum_time_seconds q2"
proof -
  have "real_of_int k powi n1 \<le> real_of_int k powi n2"
    using n k by (intro power_int_increasing) simp_all
  then show v: "pynum_value c1 \<le> pynum_value c2"
    by (simp only: combinations_value [OF k c1] combinations_value [OF k c2])
  show "t1 \<le> t2"
    if "classical_time_seconds c1 = Inr t1" "classical_time_seconds c2 = Inr t2"
    using v classical_time_seconds_value [OF that(1)] classical_time_seconds_value [OF that(2)]
    by (simp add: divide_right_mono)
  show "q1 \<le> q2 \<and> quantum_time_seconds q1 \<le> quantum_time_seconds q2"
    if "apply_grovers_speedup_num c1 = Inr (q1, s1)" "apply_grovers_speedup_num c2 = Inr (q2, s2)"
  proof -
    have "q1 \<le> q2"
      using v apply_grovers_speedup_num_value [OF that(1)]
        apply_grovers_speedup_num_value [OF that(2)] by simp
    then show ?thesis
      by (simp add: quantum_time_seconds_def quantum_speed_def divide_right_mono)
  qed
qed

lemma entropy_monotone:
  assumes "1 \<le> k" "n1 \<le> n2" "calculate_entropy k n1 = Inr e1" "calculate_entropy k n2 = Inr e2"
  shows "e1 \<le> e2"
proof -
  have "0 \<le> log 2 (real_of_int k)"
    using assms(1) by simp
  moreover have "real_of_int n1 \<le> real_of_int n2"
    using assms(2) by simp
  ultimately have "real_of_int n1 * log 2 (real_of_int k) \<le> real_of_int n2 * log 2 (real_of_int k)"
    by (rule mult_right_mono [rotated])
  then show ?thesis
    by (simp only: calculate_entropy_value [OF assms(1,3)] calculate_entropy_value [OF assms(1,4)])
qed

lemma reports_monotone:
  assumes a: "snd (detect_charsets pw1) = snd (detect_charsets pw2)"
    and n: "length pw1 \<le> length pw2"
    and r1: "analyze w pw1 = Inr r1" and r2: "analyze w pw2 = Inr r2"
  shows "combinations r1 \<le> combinations r2 \<and>
    entropy_bits r1 \<le> entropy_bits r2 \<and>
    crack_time_seconds r1 \<le> crack_time_seconds r2 \<and>
    quantum_crack_time_seconds r1 \<le> quantum_crack_time_seconds r2"
proof -
  define A where "A = snd (detect_charsets pw2)"
  have A1: "1 \<le> A"
    unfolding A_def by (rule detect_charsets_ge_1)
  note f1 = analyze_fields [OF r1, unfolded a, folded A_def]
  note f2 = analyze_fields [OF r2, folded A_def]
  have c: "A ^ length pw1 \<le> A ^ length pw2"
    using n A1 by (intro power_increasing) simp_all
  then have cr: "real_of_int (A ^ length pw1) \<le> real_of_int (A ^ length pw2)"
    by (simp only: of_int_le_iff)
  have "0 \<le> log 2 (real_of_int A)"
    using A1 by simp
  moreover have "real (length pw1) \<le> real (length pw2)"
    using n by simp
  ultimately have "real (length pw1) * log 2 (real_of_int A) \<le>
      real (length pw2) * log 2 (real_of_int A)"
    by (rule mult_right_mono [rotated])
  then have e: "py_round (real (length pw1) * log 2 (real_of_int A)) 2 \<le>
      py_round (real (length pw2) * log 2 (real_of_int A)) 2"
    by (rule py_round_mono)
  have t: "real_of_int (A ^ length pw1) / 10 ^ 8 \<le> real_of_int (A ^ length pw2) / 10 ^ 8"
    using cr by (simp add: divide_right_mono)
  have "sqrt (real_of_int (A ^ length pw1)) \<le> sqrt (real_of_int (A ^ length pw2))"
    using cr by (simp only: real_sqrt_le_iff)
  then have q: "sqrt (real_of_int (A ^ length pw1)) / 10 ^ 8 \<le>
      sqrt (real_of_int (A ^ length pw2)) / 10 ^ 8"
    by (simp add: divide_right_mono)
  show ?thesis
    using c e t q by (simp only: f1 f2 simp_thms)
qed

text \<open>
  C7, for an alphabet of at least 1. With the alphabet size fixed and \<open>n1 \<le> n2\<close>,
  whatever variant A computes for both lengths is ordered: the combinations, the
  classical crack time in seconds, the reduced attempts and the quantum crack time in
  seconds, and the entropy. For two reports of variant B whose passwords have the same
  alphabet size, the one of the longer password has at least the combinations, the
  entropy, the classical and the quantum crack time of the other.
\<close>

theorem longer_never_weaker:
  "(1 \<le> k \<longrightarrow> n1 \<le> n2 \<longrightarrow>
      (\<forall>c1 c2. calculate_classical_combinations k n1 = Inr c1 \<longrightarrow>
         calculate_classical_combinations k n2 = Inr c2 \<longrightarrow>
           pynum_value c1 \<le> pynum_value c2
           \<and> (\<forall>t1 t2. classical_time_seconds c1 = Inr t1 \<longrightarrow>
                 classical_time_seconds c2 = Inr t2 \<longrightarrow> t1 \<le> t2)
           \<and> (\<forall>q1 s1 q2 s2. apply_grovers_speedup_num c1 = Inr (q1, s1) \<longrightarrow>
                 apply_grovers_speedup_num c2 = Inr (q2, s2) \<longrightarrow>
                   q1 \<le> q2 \<and> quantum_time_seconds q1 \<le> quantum_time_seconds q2))
      \<and> (\<forall>e1 e2. calculate_entropy k n1 = Inr e1 \<longrightarrow> calculate_entropy k n2 = Inr e2 \<longrightarrow>
            e1 \<le> e2))
   \<and> (\<forall>r1 r2. snd (detect_charsets pw1) = snd (detect_charsets pw2) \<longrightarrow>
        length pw1 \<le> length pw2 \<longrightarrow> analyze w pw1 = Inr r1 \<longrightarrow> analyze w pw2 = Inr r2 \<longrightarrow>
          combinations r1 \<le> combinations r2
          \<and> entropy_bits r1 \<le> entropy_bits r2
          \<and> crack_time_seconds r1 \<le> crack_time_seconds r2
          \<and> quantum_crack_time_seconds r1 \<le> quantum_crack_time_seconds r2)"
proof -
  have a: "pynum_value c1 \<le> pynum_value c2
      \<and> (\<forall>t1 t2. classical_time_seconds c1 = Inr t1 \<longrightarrow>
            classical_time_seconds c2 = Inr t2 \<longrightarrow> t1 \<le> t2)
      \<and> (\<forall>q1 s1 q2 s2. apply_grovers_speedup_num c1 = Inr (q1, s1) \<longrightarrow>
            apply_grovers_speedup_num c2 = Inr (q2, s2) \<longrightarrow>
              q1 \<le> q2 \<and> quantum_time_seconds q1 \<le> quantum_time_seconds q2)"
    if "1 \<le> k" "n1 \<le> n2" "calculate_classical_combinations k n1 = Inr c1"
      "calculate_classical_combinations k n2 = Inr c2" for c1 c2
    using functions_monotone [OF that] by blast
  have e: "e1 \<le> e2"
    if "1 \<le> k" "n1 \<le> n2" "calculate_entropy k n1 = Inr e1" "calculate_entropy k n2 = Inr e2"
    for e1 e2
    using that by (rule entropy_monotone)
  have b: "combinations r1 \<le> combinations r2
      \<and> entropy_bits r1 \<le> entropy_bits r2
      \<and> crack_time_seconds r1 \<le> crack_time_seconds r2
      \<and> quantum_crack_time_seconds r1 \<le> quantum_crack_time_seconds r2"
    if "snd (detect_charsets pw1) = snd (detect_charsets pw2)" "length pw1 \<le> length pw2"
      "analyze w pw1 = Inr r1" "analyze w pw2 = Inr r2" for r1 r2
    using that by (rule reports_monotone)
  show ?thesis
  proof (intro conjI impI allI)
    fix c1 c2
    assume h: "1 \<le> k" "n1 \<le> n2" "calculate_classical_combinations k n1 = Inr c1"
      "calculate_classical_combinations k n2 = Inr c2"
    show "pynum_value c1 \<le> pynum_value c2"
      using a [OF h] by (elim conjE)
    show "classical_time_seconds c1 = Inr t1 \<Longrightarrow> classical_time_seconds c2 = Inr t2 \<Longrightarrow> t1 \<le> t2"
      for t1 t2
      using a [OF h] by blast
    show "apply_grovers_speedup_num c1 = Inr (q1, s1) \<Longrightarrow>
        apply_grovers_speedup_num c2 = Inr (q2, s2) \<Longrightarrow> q1 \<le> q2"
      for q1 s1 q2 s2
      using a [OF h] by blast
    show "apply_grovers_speedup_num c1 = Inr (q1, s1) \<Longrightarrow>
        apply_grovers_speedup_num c2 = Inr (q2, s2) \<Longrightarrow>
        quantum_time_seconds q1 \<le> quantum_time_seconds q2"
      for q1 s1 q2 s2
      using a [OF h] by blast
  next
    fix e1 e2
    assume "1 \<le> k" "n1 \<le> n2" "calculate_entropy k n1 = Inr e1" "calculate_entropy k n2 = Inr e2"
    then show "e1 \<le> e2"
      by (rule e)
  next
    fix r1 r2
    assume h: "snd (detect_charsets pw1) = snd (detect_charsets pw2)" "length pw1 \<le> length pw2"
      "analyze w pw1 = Inr r1" "analyze w pw2 = Inr r2"
    show "combinations r1 \<le> combinations r2"
      using b [OF h] by (elim conjE)
    show "entropy_bits r1 \<le> entropy_bits r2"
      using b [OF h] by (elim conjE)
    show "crack_time_seconds r1 \<le> crack_time_seconds r2"
      using b [OF h] by (elim conjE)
    show "quantum_crack_time_seconds r1 \<le> quantum_crack_time_seconds r2"
      using b [OF h] by (elim conjE)
  qed
qed

lemma two_in_range:
  "real (length (replicate 2 (97::nat))) < float_limit"
  "real_of_int (snd (detect_charsets (replicate 2 97)) ^ length (replicate 2 (97::nat))) < float_limit"
  using detect_lower [of 1] by (simp_all add: float_limit_def numeral_2_eq_2)

lemma demo_alphabets:
  "snd (detect_charsets (replicate 2 97)) = snd (detect_charsets (replicate 3 97))"
  using detect_lower [of 1] detect_lower [of 2] by (simp add: numeral_2_eq_2 numeral_3_eq_3)

text \<open>
  The instance at the alphabet 26 and the lengths 2 and 3, and at the passwords \<open>aa\<close>
  and \<open>aaa\<close>.
\<close>

theorem longer_never_weaker_witness:
  "calculate_classical_combinations 26 2 = Inr (PyInt 676)
   \<and> calculate_classical_combinations 26 3 = Inr (PyInt 17576)
   \<and> pynum_value (PyInt 676) \<le> pynum_value (PyInt 17576)
   \<and> calculate_entropy 26 2 = Inr (2 * log 2 26)
   \<and> calculate_entropy 26 3 = Inr (3 * log 2 26)
   \<and> (2::real) * log 2 26 \<le> 3 * log 2 26
   \<and> (\<exists>r1 r2. analyze demo_env (replicate 2 97) = Inr r1
        \<and> analyze demo_env (replicate 3 97) = Inr r2
        \<and> combinations r1 \<le> combinations r2
        \<and> entropy_bits r1 \<le> entropy_bits r2
        \<and> crack_time_seconds r1 \<le> crack_time_seconds r2
        \<and> quantum_crack_time_seconds r1 \<le> quantum_crack_time_seconds r2)"
proof -
  note t = longer_never_weaker [of 26 2 3 "replicate 2 97" "replicate 3 97" demo_env]
  have fit: "\<bar>real_of_int 2\<bar> < float_limit" "\<bar>real_of_int 3\<bar> < float_limit"
    by (simp_all add: float_limit_def)
  have e2: "calculate_entropy 26 2 = Inr (2 * log 2 26)"
    using calculate_entropy_ok [of 26 2] fit by simp
  have e3: "calculate_entropy 26 3 = Inr (3 * log 2 26)"
    using calculate_entropy_ok [of 26 3] fit by simp
  have le: "(2::real) * log 2 26 \<le> 3 * log 2 26"
    using t e2 e3 by simp
  have c2: "calculate_classical_combinations 26 2 = Inr (PyInt 676)"
    by (simp add: calculate_classical_combinations_def)
  have c3: "calculate_classical_combinations 26 3 = Inr (PyInt 17576)"
    by (simp add: calculate_classical_combinations_def)
  have cle: "pynum_value (PyInt 676) \<le> pynum_value (PyInt 17576)"
    using t c2 c3 by simp
  obtain r1 where r1: "analyze demo_env (replicate 2 97) = Inr r1"
    using analyze_ok [OF two_in_range, of demo_env] by blast
  obtain r2 where r2: "analyze demo_env (replicate 3 97) = Inr r2"
    using analyze_ok [OF three_in_range, of demo_env] by blast
  have "combinations r1 \<le> combinations r2
        \<and> entropy_bits r1 \<le> entropy_bits r2
        \<and> crack_time_seconds r1 \<le> crack_time_seconds r2
        \<and> quantum_crack_time_seconds r1 \<le> quantum_crack_time_seconds r2"
    using t r1 r2 demo_alphabets by simp
  then show ?thesis
    using c2 c3 cle e2 e3 le r1 r2 by blast
qed

text \<open>
  C7 as stated fails for the empty alphabet of variant A, the one with no class
  selected: from length 0 to length 1 the combinations fall from 1 to 0, and the
  classical crack time with them.
\<close>

theorem longer_never_weaker_counterexample:
  "fst (calculate_charset_size False False False False) = 0
   \<and> calculate_classical_combinations 0 0 = Inr (PyInt 1)
   \<and> calculate_classical_combinations 0 1 = Inr (PyInt 0)
   \<and> classical_time_seconds (PyInt 1) = Inr (1 / 10 ^ 8)
   \<and> classical_time_seconds (PyInt 0) = Inr 0"
  by (simp add: calculate_charset_size_fst calculate_classical_combinations_def
        classical_time_seconds_def int_true_div_def classical_speed_def float_limit_def)

section \<open>No check of the length\<close>

lemma analyze_no_ceiling:
  "(analyze w pw = Inl OverflowError \<or> (\<exists>r. analyze w pw = Inr r))
   \<and> ((\<exists>r. analyze w pw = Inr r) =
        (real (length pw) < float_limit \<and>
         real_of_int (snd (detect_charsets pw) ^ length pw) < float_limit))
   \<and> (real n < float_limit \<longrightarrow>
        (\<exists>r. analyze w (replicate n 233) = Inr r \<and> length_field r = int n))"
proof -
  let ?ok = "real (length pw) < float_limit \<and>
         real_of_int (snd (detect_charsets pw) ^ length pw) < float_limit"
  have yes: "\<exists>r. analyze w pw = Inr r" if "?ok"
    using analyze_ok [of pw w] that by blast
  have no: "analyze w pw = Inl OverflowError" if "\<not> ?ok"
    using analyze_overflow [of pw w] that by blast
  have iff: "(\<exists>r. analyze w pw = Inr r) = ?ok"
    using yes no by (cases "?ok") auto
  have rep: "\<exists>r. analyze w (replicate n 233) = Inr r \<and> length_field r = int n"
    if "real n < float_limit"
  proof -
    have "real (length (replicate n (233::nat))) < float_limit"
      using that by simp
    moreover have
      "real_of_int (snd (detect_charsets (replicate n 233)) ^ length (replicate n (233::nat)))
         < float_limit"
      using float_limit_pos by (simp add: detect_outside)
    ultimately obtain q where "analyze w (replicate n 233) =
      Inr \<lparr> input_password = replicate n 233,
             length_field = int (length (replicate n (233::nat))),
             charsets_field = fst (detect_charsets (replicate n 233)),
             alphabet_size = snd (detect_charsets (replicate n 233)),
             combinations = snd (detect_charsets (replicate n 233)) ^ length (replicate n (233::nat)),
             entropy_bits =
               py_round (real (length (replicate n (233::nat))) *
                 log 2 (real_of_int (snd (detect_charsets (replicate n 233))))) 2,
             crack_time_seconds =
               real_of_int (snd (detect_charsets (replicate n 233)) ^ length (replicate n (233::nat)))
                 / 10 ^ 8,
             quantum_crack_time_seconds =
               sqrt (real_of_int (snd (detect_charsets (replicate n 233)) ^
                 length (replicate n (233::nat)))) / 10 ^ 8,
             speedup_factor =
               sqrt (real_of_int (snd (detect_charsets (replicate n 233)) ^
                 length (replicate n (233::nat)))),
             security_classification =
               classify_security
                 (real (length (replicate n (233::nat))) *
                   log 2 (real_of_int (snd (detect_charsets (replicate n 233))))),
             suggestions =
               get_improvements (isdigit w) (replicate n 233)
                 (real (length (replicate n (233::nat))) *
                   log 2 (real_of_int (snd (detect_charsets (replicate n 233))))),
             passphrase = str_lit ''Correct-Horse-Battery-Staple'',
             random_suggestion = generate_random_password (draw w) 16,
             quantum_encrypted = q \<rparr>"
      using analyze_ok [of "replicate n 233" w] by blast
    then show ?thesis by simp
  qed
  show ?thesis
    using yes no iff rep by blast
qed

text \<open>
  C8, as the code has it. Neither variant checks the length and neither has an
  \<open>InvalidLength\<close> error; what ends an analysis is an error of Python or of Qiskit.

  Variant A, \<open>analyze_password\<close>, takes the length from the caller. A negative length
  is not refused by the source. With some class selected all of its own steps succeed,
  the combinations being the float \<open>k ** length\<close>, and the call ends as the Qiskit
  circuit of \<open>min(length, 8) = length\<close> qubits ends: the error of the library is the
  one surfaced, and if a key is measured a report with this length is returned. With
  no class selected \<open>0 ** length\<close> raises \<open>ZeroDivisionError\<close>. A negative length
  whose magnitude does not fit a double raises \<open>OverflowError\<close>. For a length from 0
  on: with no class selected \<open>math.log2(0)\<close> raises \<open>ValueError\<close>; with some class
  selected a report is returned exactly when \<open>k^length\<close> is below the bound of a
  double and the backend returns a key, and from 342 on the analysis always ends in
  \<open>OverflowError\<close> with no report.

  Variant B, \<open>analyze\<close>, takes the length from the password, so it is never negative.
  It returns a report exactly when the length and the search space \<open>A^L\<close> fit a
  double, and otherwise raises \<open>OverflowError\<close>. There is no ceiling on the length
  alone: a password of any length below that bound whose characters lie outside all
  five classes gets a report.
\<close>

theorem no_length_ceiling:
  "(n < 0 \<longrightarrow> \<bar>real_of_int n\<bar> < float_limit \<longrightarrow> (l \<or> u \<or> d \<or> s) \<longrightarrow>
      (\<forall>e. backend rt n = Inl e \<longrightarrow> analyze_password rt n l u d s c = Inl e) \<and>
      (\<forall>key. backend rt n = Inr key \<longrightarrow>
         (\<exists>r. analyze_password rt n l u d s c = Inr r \<and> rep_length r = n \<and>
              rep_quantum_key r = key)))
   \<and> (n < 0 \<longrightarrow> \<bar>real_of_int n\<bar> < float_limit \<longrightarrow>
        analyze_password rt n False False False False c = Inl ZeroDivisionError)
   \<and> (h < 0 \<longrightarrow> \<not> \<bar>real_of_int h\<bar> < float_limit \<longrightarrow>
        analyze_password rt h l u d s c = Inl OverflowError)
   \<and> (0 \<le> j \<longrightarrow> analyze_password rt j False False False False c = Inl ValueError)
   \<and> (0 \<le> j \<longrightarrow> (l \<or> u \<or> d \<or> s) \<longrightarrow>
        (\<exists>r. analyze_password rt j l u d s c = Inr r) =
          (real_of_int (fst (calculate_charset_size l u d s) ^ nat j) < float_limit \<and>
           (\<exists>key. backend rt (min j 8) = Inr key)))
   \<and> (342 \<le> m \<longrightarrow> (l \<or> u \<or> d \<or> s) \<longrightarrow>
        analyze_password rt m l u d s c = Inl OverflowError)
   \<and> (analyze w pw = Inl OverflowError \<or> (\<exists>r. analyze w pw = Inr r))
   \<and> ((\<exists>r. analyze w pw = Inr r) =
        (real (length pw) < float_limit \<and>
         real_of_int (snd (detect_charsets pw) ^ length pw) < float_limit))
   \<and> (real q < float_limit \<longrightarrow>
        (\<exists>r. analyze w (replicate q 233) = Inr r \<and> length_field r = int q))"
proof -
  have a1: "n < 0 \<longrightarrow> \<bar>real_of_int n\<bar> < float_limit \<longrightarrow> (l \<or> u \<or> d \<or> s) \<longrightarrow>
      (\<forall>e. backend rt n = Inl e \<longrightarrow> analyze_password rt n l u d s c = Inl e) \<and>
      (\<forall>key. backend rt n = Inr key \<longrightarrow>
         (\<exists>r. analyze_password rt n l u d s c = Inr r \<and> rep_length r = n \<and>
              rep_quantum_key r = key))"
    using analyze_password_negative_backend [of n l u d s rt c] by blast
  have a2: "n < 0 \<longrightarrow> \<bar>real_of_int n\<bar> < float_limit \<longrightarrow>
        analyze_password rt n False False False False c = Inl ZeroDivisionError"
    using analyze_password_no_class_negative [of n rt c] by blast
  have a3: "h < 0 \<longrightarrow> \<not> \<bar>real_of_int h\<bar> < float_limit \<longrightarrow>
        analyze_password rt h l u d s c = Inl OverflowError"
    using analyze_password_huge_negative [of h rt l u d s c] by blast
  have a4: "0 \<le> j \<longrightarrow> analyze_password rt j False False False False c = Inl ValueError"
    using analyze_password_no_class [of j rt c] by blast
  have a5: "0 \<le> j \<longrightarrow> (l \<or> u \<or> d \<or> s) \<longrightarrow>
        (\<exists>r. analyze_password rt j l u d s c = Inr r) =
          (real_of_int (fst (calculate_charset_size l u d s) ^ nat j) < float_limit \<and>
           (\<exists>key. backend rt (min j 8) = Inr key))"
    using analyze_password_report_iff [of j l u d s rt c] by blast
  have a6: "342 \<le> m \<longrightarrow> (l \<or> u \<or> d \<or> s) \<longrightarrow>
        analyze_password rt m l u d s c = Inl OverflowError"
    using analyze_password_342 [of m l u d s rt c] by blast
  note b = analyze_no_ceiling [of w pw q]
  from a1 a2 a3 a4 a5 a6 b show ?thesis
    by (intro conjI) (elim conjE, assumption)+
qed

text \<open>
  The instance at the lengths \<open>-1\<close>, \<open>-2^1024\<close>, 8 and 342 of variant A, with lower-case letters
  selected and a backend that refuses a negative number of qubits, and at 400
  characters \<open>U+00E9\<close> for variant B.
\<close>

theorem no_length_ceiling_witness:
  "analyze_password demo_runtime (- 1) True False False False False = Inl CircuitError
   \<and> analyze_password demo_runtime (- 1) False False False False False = Inl ZeroDivisionError
   \<and> analyze_password demo_runtime (- (2 ^ 1024)) True False False False False =
       Inl OverflowError
   \<and> analyze_password demo_runtime 8 False False False False False = Inl ValueError
   \<and> (\<exists>r. analyze_password demo_runtime 8 True False False False False = Inr r)
   \<and> analyze_password demo_runtime 342 True False False False False = Inl OverflowError
   \<and> (\<exists>r. analyze demo_env (replicate 400 233) = Inr r \<and> length_field r = 400)"
proof -
  have f: "\<bar>real_of_int (- 1)\<bar> < float_limit" "real (400::nat) < float_limit"
    "real_of_int (fst (calculate_charset_size True False False False) ^ nat 8) < float_limit"
    "\<not> \<bar>real_of_int (- (2 ^ 1024))\<bar> < float_limit" "- (2 ^ 1024) < (0::int)"
    by (simp_all add: float_limit_def calculate_charset_size_fst)
  have g: "backend demo_runtime (- 1) = Inl CircuitError"
    "backend demo_runtime (min 8 8) = Inr (replicate 8 49)"
    by (simp_all add: demo_runtime_def)
  show ?thesis
    using no_length_ceiling [where n = "- 1" and h = "- (2 ^ 1024)" and j = 8 and m = 342
        and l = True and u = False
        and d = False and s = False and rt = demo_runtime and c = False and w = demo_env
        and pw = "[]" and q = 400] f g
    by simp
qed

text \<open>
  C8 as stated fails at the negative length \<open>-1\<close> of variant A: no \<open>InvalidLength\<close>
  error is raised. The source computes the combinations, the float \<open>1/26\<close>, and
  everything after them, and the error that reaches the caller is the
  \<open>CircuitError\<close> of Qiskit for a register of \<open>-1\<close> qubits.
\<close>

theorem no_length_ceiling_counterexample:
  "calculate_classical_combinations 26 (- 1) = Inr (PyFloat (1 / 26))
   \<and> analyze_password demo_runtime (- 1) True False False False False = Inl CircuitError"
proof -
  have "\<bar>real_of_int (- 1)\<bar> < float_limit"
    by (simp add: float_limit_def)
  then have "analyze_password demo_runtime (- 1) True False False False False = Inl CircuitError"
    using analyze_password_negative [of "- 1" True False False False demo_runtime False]
    by (simp add: demo_runtime_def)
  moreover have "calculate_classical_combinations 26 (- 1) = Inr (PyFloat (1 / 26))"
    by (simp add: calculate_classical_combinations_def int_to_float_def float_limit_def
          power_int_minus)
  ultimately show ?thesis
    by simp
qed

end
